theory Spec2Isabelle
  imports Complex_Main
begin

section \<open>Strings\<close>

text \<open>
  Python strings are modelled as \<open>string\<close> (lists of \<open>char\<close>), which covers the code
  points below 256. The helpers below follow the \<open>str\<close> methods the program calls.
\<close>

definition startswith :: "string \<Rightarrow> string \<Rightarrow> bool" where
  \<comment> \<open>\<open>s.startswith(p)\<close>\<close>
  "startswith s p = (take (length p) s = p)"

fun contains :: "string \<Rightarrow> string \<Rightarrow> bool" where
  \<comment> \<open>\<open>sub in s\<close>\<close>
  "contains [] sub = (sub = [])"
| "contains (c # cs) sub = (startswith (c # cs) sub \<or> contains cs sub)"

definition is_space :: "char \<Rightarrow> bool" where
  \<comment> \<open>\<open>str.isspace\<close> on one code point below 256: TAB, LF, VT, FF, CR, FS, GS, RS, US,
      SPACE, NEL and NBSP.\<close>
  "is_space c = (of_char c \<in> set [9, 10, 11, 12, 13, 28, 29, 30, 31, 32, 133, 160 :: nat])"

definition strip :: "string \<Rightarrow> string" where
  \<comment> \<open>\<open>s.strip()\<close>\<close>
  "strip s = rev (dropWhile is_space (rev (dropWhile is_space s)))"

fun split_char :: "char \<Rightarrow> string \<Rightarrow> string list" where
  \<comment> \<open>\<open>s.split(c)\<close> for a separator of one character: never an empty list\<close>
  "split_char c [] = [[]]"
| "split_char c (x # xs) =
     (if x = c then [] # split_char c xs
      else (case split_char c xs of
              [] \<Rightarrow> [[x]]
            | w # ws \<Rightarrow> (x # w) # ws))"

section \<open>Configuration\<close>

text \<open>
  The entries of \<open>config.json\<close> that the modelled functions read. Integers are Python's
  unbounded integers; the pacing bounds are numbers of seconds.
\<close>

record config =
  sent_history_reset_days :: int
  blocked_hours :: "int list"
  min_wait_seconds :: real
  max_wait_seconds :: real
  max_messages_per_day :: int
  search_keywords :: "string list"
  max_users_per_keyword :: int
  max_scroll_per_page :: int
  monthly_report_day :: int

section \<open>Pacing\<close>

text \<open>
  \<open>random.random()\<close> is an input of the model: each call of the source consumes one draw
  \<open>r\<close> with \<open>0 \<le> r < 1\<close>, and \<open>random.uniform(a, b)\<close> is \<open>a + (b - a) * r\<close>.
  Durations are exact reals in place of floats. \<open>wait_between_actions\<close> returns the
  number of seconds passed to \<open>time.sleep\<close>; \<open>r1\<close> is the draw of the base delay, \<open>r2\<close>
  the draw compared with 0.1, \<open>r3\<close> the draw of the long break (consumed only when the
  break is taken).
\<close>

definition uniform :: "real \<Rightarrow> real \<Rightarrow> real \<Rightarrow> real" where
  "uniform a b r = a + (b - a) * r"

definition wait_between_actions :: "config \<Rightarrow> int \<Rightarrow> real \<Rightarrow> real \<Rightarrow> real \<Rightarrow> real" where
  "wait_between_actions cfg action_count r1 r2 r3 =
     (let min_wait = min_wait_seconds cfg;
          max_wait = max_wait_seconds cfg;
          base_wait = uniform min_wait max_wait r1;
          base_wait = (if action_count > 100 then base_wait * 1.5
                       else if action_count > 300 then base_wait * 2.0
                       else base_wait);
          base_wait = (if r2 < 0.1 then base_wait + uniform 60 180 r3 else base_wait)
      in base_wait)"

section \<open>Blacklist\<close>

text \<open>
  The spreadsheet is an input: \<open>Inl e\<close> when anything inside the \<open>try\<close> block of
  \<open>load_blacklist\<close> raises \<open>e\<close> (credentials, network, API), \<open>Inr urls\<close> for the column
  values it returns. The function cannot fail; it returns the new \<open>blacklist_urls\<close> and
  the line it logs.
\<close>

datatype log_level = INFO | WARNING | ERROR

datatype log_message =
    LoadedBlacklist nat
  | BlacklistLoadFailed string
  | LoadedHistory nat
  | NoHistoryFound

type_synonym log_entry = "log_level \<times> log_message"

definition blacklist_keep :: "string \<Rightarrow> bool" where
  \<comment> \<open>the condition of the set comprehension, on the entry as the sheet returns it\<close>
  "blacklist_keep url =
     (url \<noteq> [] \<and> (startswith url ''https://twitter.com'' \<or> startswith url ''https://x.com''))"

definition load_blacklist :: "string + string list \<Rightarrow> string set \<times> log_entry" where
  "load_blacklist provider =
     (case provider of
        Inr urls \<Rightarrow>
          (let blacklist_urls = set (map strip (filter blacklist_keep urls))
           in (blacklist_urls, (INFO, LoadedBlacklist (card blacklist_urls))))
      | Inl e \<Rightarrow> ({}, (WARNING, BlacklistLoadFailed e)))"

section \<open>Dates and times\<close>

text \<open>
  A naive \<open>datetime\<close> is the record of its fields; comparison is the lexicographic
  order of the fields. Subtracting a \<open>timedelta(days=n)\<close> goes through the proleptic
  Gregorian ordinal of the date, as the standard library does, and raises
  \<open>OverflowError\<close> (here \<open>None\<close>) when the result leaves the years 1 to 9999.
\<close>

record datetime =
  year :: nat
  month :: nat
  day :: nat
  hour :: nat
  minute :: nat
  second :: nat
  microsecond :: nat

fun lex_less :: "nat list \<Rightarrow> nat list \<Rightarrow> bool" where
  "lex_less (x # xs) (y # ys) = (x < y \<or> (x = y \<and> lex_less xs ys))"
| "lex_less _ _ = False"

definition dt_fields :: "datetime \<Rightarrow> nat list" where
  "dt_fields d = [year d, month d, day d, hour d, minute d, second d, microsecond d]"

definition dt_less :: "datetime \<Rightarrow> datetime \<Rightarrow> bool" where
  \<comment> \<open>\<open>a < b\<close>\<close>
  "dt_less a b = lex_less (dt_fields a) (dt_fields b)"

definition dt_le :: "datetime \<Rightarrow> datetime \<Rightarrow> bool" where
  \<comment> \<open>\<open>a <= b\<close>\<close>
  "dt_le a b = (dt_less a b \<or> dt_fields a = dt_fields b)"

definition is_leap :: "nat \<Rightarrow> bool" where
  "is_leap y = (y mod 4 = 0 \<and> (y mod 100 \<noteq> 0 \<or> y mod 400 = 0))"

definition DAYS_IN_MONTH :: "nat list" where
  "DAYS_IN_MONTH = [0, 31, 28, 31, 30, 31, 30, 31, 31, 30, 31, 30, 31]"

definition DAYS_BEFORE_MONTH :: "nat list" where
  "DAYS_BEFORE_MONTH = [0, 0, 31, 59, 90, 120, 151, 181, 212, 243, 273, 304, 334]"

definition days_in_month :: "nat \<Rightarrow> nat \<Rightarrow> nat" where
  "days_in_month y m = (if m = 2 \<and> is_leap y then 29 else DAYS_IN_MONTH ! m)"

definition days_before_year :: "nat \<Rightarrow> nat" where
  "days_before_year y' = (let y = y' - 1 in y * 365 + y div 4 - y div 100 + y div 400)"

definition days_before_month :: "nat \<Rightarrow> nat \<Rightarrow> nat" where
  "days_before_month y m = DAYS_BEFORE_MONTH ! m + (if m > 2 \<and> is_leap y then 1 else 0)"

definition ymd2ord :: "nat \<Rightarrow> nat \<Rightarrow> nat \<Rightarrow> nat" where
  "ymd2ord y m d = days_before_year y + days_before_month y m + d"

definition ord2ymd :: "nat \<Rightarrow> nat \<times> nat \<times> nat" where
  \<comment> \<open>for an ordinal \<open>n \<ge> 1\<close>\<close>
  "ord2ymd n0 =
     (let n = n0 - 1;
          n400 = n div 146097; n = n mod 146097;
          y = n400 * 400 + 1;
          n100 = n div 36524; n = n mod 36524;
          n4 = n div 1461; n = n mod 1461;
          n1 = n div 365; n = n mod 365;
          y = y + n100 * 100 + n4 * 4 + n1
      in if n1 = 4 \<or> n100 = 4 then (y - 1, 12, 31)
         else
           (let leapyear = (n1 = 3 \<and> (n4 \<noteq> 24 \<or> n100 = 3));
                m = (n + 50) div 32;
                preceding = DAYS_BEFORE_MONTH ! m + (if m > 2 \<and> leapyear then 1 else 0)
            in if preceding > n
               then (let m' = m - 1;
                         preceding' = preceding
                           - (DAYS_IN_MONTH ! m' + (if m' = 2 \<and> leapyear then 1 else 0))
                     in (y, m', n - preceding' + 1))
               else (y, m, n - preceding + 1)))"

definition valid_datetime :: "datetime \<Rightarrow> bool" where
  \<comment> \<open>the checks of the \<open>datetime\<close> constructor\<close>
  "valid_datetime d =
     (1 \<le> year d \<and> year d \<le> 9999 \<and> 1 \<le> month d \<and> month d \<le> 12 \<and>
      1 \<le> day d \<and> day d \<le> days_in_month (year d) (month d) \<and>
      hour d \<le> 23 \<and> minute d \<le> 59 \<and> second d \<le> 59 \<and> microsecond d \<le> 999999)"

definition minus_days :: "datetime \<Rightarrow> int \<Rightarrow> datetime option" where
  \<comment> \<open>\<open>d - timedelta(days=n)\<close>; ordinal 3652059 is 9999-12-31\<close>
  "minus_days d n =
     (if \<bar>n\<bar> > 999999999 then None
      else (let ordinal = int (ymd2ord (year d) (month d) (day d)) - n
            in if 1 \<le> ordinal \<and> ordinal \<le> 3652059
               then (case ord2ymd (nat ordinal) of
                       (y, m, dd) \<Rightarrow> Some (d\<lparr>year := y, month := m, day := dd\<rparr>))
               else None))"

subsection \<open>Formatting\<close>

definition digit_char :: "nat \<Rightarrow> char" where
  "digit_char n = ''0123456789'' ! (n mod 10)"

definition pad2 :: "nat \<Rightarrow> string" where
  "pad2 n = [digit_char (n div 10), digit_char n]"

definition pad4 :: "nat \<Rightarrow> string" where
  "pad4 n = [digit_char (n div 1000), digit_char (n div 100), digit_char (n div 10), digit_char n]"

definition strftime_Ym :: "datetime \<Rightarrow> string" where
  \<comment> \<open>\<open>d.strftime('%Y-%m')\<close>, years of four digits\<close>
  "strftime_Ym d = pad4 (year d) @ ''-'' @ pad2 (month d)"

definition strftime_Ymd :: "datetime \<Rightarrow> string" where
  \<comment> \<open>\<open>d.strftime('%Y-%m-%d')\<close>\<close>
  "strftime_Ymd d = strftime_Ym d @ ''-'' @ pad2 (day d)"

definition strftime_YmdHMS :: "datetime \<Rightarrow> string" where
  \<comment> \<open>\<open>d.strftime('%Y-%m-%d %H:%M:%S')\<close>\<close>
  "strftime_YmdHMS d =
     strftime_Ymd d @ '' '' @ pad2 (hour d) @ '':'' @ pad2 (minute d) @ '':'' @ pad2 (second d)"

subsection \<open>Parsing\<close>

text \<open>
  \<open>datetime.strptime\<close> compiles the format into a regular expression, one group per
  directive with its alternatives in a fixed order, white space in the format as
  \<open>\s+\<close>; it matches the expression at the start of the text, raises \<open>ValueError\<close> when
  nothing matches or when text remains after the match, and builds the \<open>datetime\<close>,
  whose constructor raises \<open>ValueError\<close> on a field out of range. \<open>None\<close> is
  \<open>ValueError\<close>. \<open>alternatives\<close> lists, in the order the expression tries them, the
  value and the remaining text of every way a directive matches a prefix.
\<close>

datatype directive = DY | Dm | Dd | DH | DM | DS | Lit char | Space

definition digit_of :: "char \<Rightarrow> nat option" where
  "digit_of c = map_of (zip ''0123456789'' [0, 1, 2, 3, 4, 5, 6, 7, 8, 9]) c"

fun two_digits :: "(nat \<Rightarrow> bool) \<Rightarrow> (nat \<Rightarrow> bool) \<Rightarrow> string \<Rightarrow> (nat \<times> string) list" where
  \<comment> \<open>a first digit satisfying \<open>p\<close> followed by a second digit satisfying \<open>q\<close>\<close>
  "two_digits p q (a # b # rest) =
     (case (digit_of a, digit_of b) of
        (Some x, Some y) \<Rightarrow> (if p x \<and> q y then [(10 * x + y, rest)] else [])
      | _ \<Rightarrow> [])"
| "two_digits p q _ = []"

fun one_digit :: "(nat \<Rightarrow> bool) \<Rightarrow> string \<Rightarrow> (nat \<times> string) list" where
  "one_digit p (a # rest) =
     (case digit_of a of Some x \<Rightarrow> (if p x then [(x, rest)] else []) | None \<Rightarrow> [])"
| "one_digit p [] = []"

fun four_digits :: "string \<Rightarrow> (nat \<times> string) list" where
  "four_digits (a # b # c # d # rest) =
     (case (digit_of a, digit_of b, digit_of c, digit_of d) of
        (Some w, Some x, Some y, Some z) \<Rightarrow> [(1000 * w + 100 * x + 10 * y + z, rest)]
      | _ \<Rightarrow> [])"
| "four_digits _ = []"

fun spaces :: "string \<Rightarrow> (nat \<times> string) list" where
  \<comment> \<open>\<open>\s+\<close>: greedy, the longest run of white space first\<close>
  "spaces [] = []"
| "spaces (c # cs) = (if is_space c then spaces cs @ [(0, cs)] else [])"

fun alternatives :: "directive \<Rightarrow> string \<Rightarrow> (nat \<times> string) list" where
  "alternatives DY s = four_digits s"
| "alternatives Dm s =
     two_digits (\<lambda>x. x = 1) (\<lambda>y. y \<le> 2) s @ two_digits (\<lambda>x. x = 0) (\<lambda>y. 1 \<le> y) s
     @ one_digit (\<lambda>x. 1 \<le> x) s"
| "alternatives Dd s =
     two_digits (\<lambda>x. x = 3) (\<lambda>y. y \<le> 1) s @ two_digits (\<lambda>x. 1 \<le> x \<and> x \<le> 2) (\<lambda>y. True) s
     @ two_digits (\<lambda>x. x = 0) (\<lambda>y. 1 \<le> y) s @ one_digit (\<lambda>x. 1 \<le> x) s
     @ (case s of c # rest \<Rightarrow> (if c = CHR '' '' then one_digit (\<lambda>x. 1 \<le> x) rest else [])
                | [] \<Rightarrow> [])"
| "alternatives DH s =
     two_digits (\<lambda>x. x = 2) (\<lambda>y. y \<le> 3) s @ two_digits (\<lambda>x. x \<le> 1) (\<lambda>y. True) s
     @ one_digit (\<lambda>x. True) s"
| "alternatives DM s = two_digits (\<lambda>x. x \<le> 5) (\<lambda>y. True) s @ one_digit (\<lambda>x. True) s"
| "alternatives DS s =
     two_digits (\<lambda>x. x = 6) (\<lambda>y. y \<le> 1) s @ two_digits (\<lambda>x. x \<le> 5) (\<lambda>y. True) s
     @ one_digit (\<lambda>x. True) s"
| "alternatives (Lit c) s = (case s of x # rest \<Rightarrow> (if x = c then [(0, rest)] else []) | [] \<Rightarrow> [])"
| "alternatives Space s = spaces s"

fun set_field :: "directive \<Rightarrow> nat \<Rightarrow> datetime \<Rightarrow> datetime" where
  "set_field DY v d = d\<lparr>year := v\<rparr>"
| "set_field Dm v d = d\<lparr>month := v\<rparr>"
| "set_field Dd v d = d\<lparr>day := v\<rparr>"
| "set_field DH v d = d\<lparr>hour := v\<rparr>"
| "set_field DM v d = d\<lparr>minute := v\<rparr>"
| "set_field DS v d = d\<lparr>second := v\<rparr>"
| "set_field _ v d = d"

fun first_some :: "'a option list \<Rightarrow> 'a option" where
  "first_some [] = None"
| "first_some (Some x # _) = Some x"
| "first_some (None # xs) = first_some xs"

fun regex_match :: "directive list \<Rightarrow> string \<Rightarrow> datetime \<Rightarrow> (datetime \<times> string) option" where
  \<comment> \<open>the first match in backtracking order, with the text after it\<close>
  "regex_match [] s d = Some (d, s)"
| "regex_match (f # fs) s d =
     first_some (map (\<lambda>(v, rest). regex_match fs rest (set_field f v d)) (alternatives f s))"

definition strptime_defaults :: datetime where
  "strptime_defaults =
     \<lparr>year = 1900, month = 1, day = 1, hour = 0, minute = 0, second = 0, microsecond = 0\<rparr>"

definition strptime :: "string \<Rightarrow> directive list \<Rightarrow> datetime option" where
  "strptime data_string fmt =
     (case regex_match fmt data_string strptime_defaults of
        None \<Rightarrow> None
      | Some (d, rest) \<Rightarrow>
          (if rest \<noteq> [] then None
           else if valid_datetime d then Some d
           else None))"

definition FMT_HM :: "directive list" where
  \<comment> \<open>\<open>'%Y-%m-%d %H:%M'\<close>\<close>
  "FMT_HM = [DY, Lit CHR ''-'', Dm, Lit CHR ''-'', Dd, Space, DH, Lit CHR '':'', DM]"

definition FMT_HMS :: "directive list" where
  \<comment> \<open>\<open>'%Y-%m-%d %H:%M:%S'\<close>\<close>
  "FMT_HMS = FMT_HM @ [Lit CHR '':'', DS]"

section \<open>History log\<close>

text \<open>
  The log file is the list of its rows after the header, oldest first; every row has the
  six columns of the header as strings. \<open>csv\<close> writes and reads back the same strings.
\<close>

record row =
  row_date :: string
  row_username :: string
  row_url :: string
  row_status :: string
  row_error :: string
  row_message_sent :: string

definition load_sent_history ::
  "config \<Rightarrow> datetime \<Rightarrow> row list option \<Rightarrow> string set \<Rightarrow> (string set \<times> log_entry) option" where
  \<comment> \<open>\<open>now\<close> is the value of \<open>datetime.now()\<close>, the third argument the log file (\<open>None\<close>:
      \<open>FileNotFoundError\<close>), the fourth \<open>self.sent_users\<close> before the call. The result is
      \<open>None\<close> when the \<open>OverflowError\<close> of the subtraction leaves the function.\<close>
  "load_sent_history cfg now file sent =
     (case minus_days now (sent_history_reset_days cfg) of
        None \<Rightarrow> None
      | Some reset_date \<Rightarrow>
          (case file of
             None \<Rightarrow> Some (sent, (INFO, NoHistoryFound))
           | Some rows \<Rightarrow>
               (let sent' = fold (\<lambda>r acc.
                      (case strptime (row_date r) FMT_HM of
                         None \<Rightarrow> acc
                       | Some send_date \<Rightarrow>
                           (if dt_less reset_date send_date \<and> row_status r = ''Success''
                            then insert (row_username r) acc else acc))) rows sent
                in Some (sent', (INFO, LoadedHistory (card sent'))))))"

definition message_excerpt :: "string \<Rightarrow> string" where
  "message_excerpt message = (if length message > 50 then take 50 message @ ''...'' else message)"

definition logged_row :: "datetime \<Rightarrow> string \<Rightarrow> string \<Rightarrow> string \<Rightarrow> string \<Rightarrow> string \<Rightarrow> row" where
  \<comment> \<open>the row \<open>log_sending_result\<close> writes when \<open>datetime.now()\<close> is \<open>now\<close>\<close>
  "logged_row now username url status err message =
     \<lparr>row_date = strftime_YmdHMS now, row_username = username, row_url = url,
      row_status = status, row_error = err, row_message_sent = message_excerpt message\<rparr>"

section \<open>Discovery\<close>

text \<open>
  The browser is an input. A page that is being scrolled is a function from the number of
  the loop iteration to a snapshot: what each of the three XPath selectors finds there
  (\<open>None\<close>: \<open>find_elements\<close> raises), and \<open>document.body.scrollHeight\<close> before and after
  the scroll of that iteration. An element gives its \<open>href\<close> attribute (\<open>None\<close> when it has
  none) or raises when asked for it. A Python set of targets is kept as a list without
  duplicates. The order of that list carries no meaning: where the source turns a set into
  a list, the order is that of the hashes of the process and is an input of the run
  (\<open>enumeration\<close> below).
\<close>

type_synonym target = "string \<times> string"

datatype element = Href "string option" | Stale

record snapshot =
  found :: "nat \<Rightarrow> element list option"
  height_before :: int
  height_after :: int

definition set_add :: "'a list \<Rightarrow> 'a \<Rightarrow> 'a list" where
  "set_add xs x = (if x \<in> set xs then xs else xs @ [x])"

definition set_update :: "'a list \<Rightarrow> 'a list \<Rightarrow> 'a list" where
  "set_update xs ys = fold (\<lambda>y acc. set_add acc y) ys xs"

definition username_of_href :: "string \<Rightarrow> target option" where
  \<comment> \<open>the body of the element loop of \<open>extract_usernames_from_page\<close> for a present \<open>href\<close>\<close>
  "username_of_href href =
     (if href \<noteq> [] \<and> \<not> contains href ''/status/'' \<and> \<not> contains href ''/search''
      then (if contains href ''twitter.com'' \<or> contains href ''x.com''
            then (let username_part = hd (split_char CHR ''?'' (last (split_char CHR ''/'' href)))
                  in if username_part \<noteq> [] \<and> \<not> startswith username_part ''i/''
                     then Some (''@'' @ username_part, href) else None)
            else None)
      else None)"

fun collect_elements :: "element list \<Rightarrow> target list \<Rightarrow> target list \<times> bool" where
  \<comment> \<open>the element loop; the flag tells that an element raised\<close>
  "collect_elements [] usernames = (usernames, False)"
| "collect_elements (Stale # _) usernames = (usernames, True)"
| "collect_elements (Href None # users) usernames = collect_elements users usernames"
| "collect_elements (Href (Some href) # users) usernames =
     collect_elements users
       (case username_of_href href of None \<Rightarrow> usernames | Some t \<Rightarrow> set_add usernames t)"

fun try_selectors :: "(nat \<Rightarrow> element list option) \<Rightarrow> nat list \<Rightarrow> target list \<Rightarrow> target list" where
  "try_selectors fnd [] usernames = usernames"
| "try_selectors fnd (selector # selectors) usernames =
     (case fnd selector of
        None \<Rightarrow> try_selectors fnd selectors usernames
      | Some users \<Rightarrow>
          (case collect_elements users usernames of
             (usernames', True) \<Rightarrow> try_selectors fnd selectors usernames'
           | (usernames', False) \<Rightarrow>
               (if usernames' \<noteq> [] then usernames'
                else try_selectors fnd selectors usernames')))"

definition extract_usernames_from_page :: "snapshot \<Rightarrow> target list" where
  "extract_usernames_from_page snap = try_selectors (found snap) [0, 1, 2] []"

datatype py_error = NameError

fun scroll_loop ::
  "(nat \<Rightarrow> snapshot) \<Rightarrow> nat \<Rightarrow> nat \<Rightarrow> nat \<Rightarrow> target list \<Rightarrow> target list \<times> nat" where
  \<comment> \<open>\<open>scroll_loop page k scroll stable_count all_usernames\<close>: the \<open>for\<close> loop with \<open>k\<close>
      iterations left, about to run iteration \<open>scroll\<close>; returns \<open>all_usernames\<close> and the
      number of scrolls made, which is the logged \<open>scroll + 1\<close>\<close>
  "scroll_loop page 0 scroll stable_count all_usernames = (all_usernames, scroll)"
| "scroll_loop page (Suc k) scroll stable_count all_usernames =
     (let snap = page scroll;
          current_users = extract_usernames_from_page snap;
          all_usernames = set_update all_usernames current_users;
          current_height = height_before snap;
          new_height = height_after snap
      in if new_height = current_height
         then (if stable_count + 1 \<ge> 2 then (all_usernames, scroll + 1)
               else scroll_loop page k (scroll + 1) (stable_count + 1) all_usernames)
         else scroll_loop page k (scroll + 1) 0 all_usernames)"

definition scroll_and_collect :: "(nat \<Rightarrow> snapshot) \<Rightarrow> int \<Rightarrow> py_error + target list \<times> nat" where
  \<comment> \<open>with no iteration the name \<open>scroll\<close> in the log line is unbound\<close>
  "scroll_and_collect page max_scrolls =
     (if max_scrolls \<le> 0 then Inl NameError
      else Inr (scroll_loop page (nat max_scrolls) 0 0 []))"

subsection \<open>The first version of the script\<close>

text \<open>
  \<open>x_dm_sender.py\<close> has its own \<open>extract_usernames_from_page\<close> and \<open>scroll_and_collect\<close>,
  on the first selector only and without exception handlers: \<open>None\<close> is an exception of
  the browser.
\<close>

fun legacy_collect :: "element list \<Rightarrow> target list \<Rightarrow> target list option" where
  "legacy_collect [] usernames = Some usernames"
| "legacy_collect (Stale # _) usernames = None"
| "legacy_collect (Href None # users) usernames = legacy_collect users usernames"
| "legacy_collect (Href (Some href) # users) usernames =
     legacy_collect users
       (if href \<noteq> [] \<and> \<not> contains href ''/status/''
        then set_add usernames (''@'' @ last (split_char CHR ''/'' href), href)
        else usernames)"

definition legacy_extract_usernames_from_page :: "snapshot \<Rightarrow> target list option" where
  "legacy_extract_usernames_from_page snap =
     (case found snap 0 of None \<Rightarrow> None | Some users \<Rightarrow> legacy_collect users [])"

fun legacy_scroll_loop ::
  "(nat \<Rightarrow> snapshot) \<Rightarrow> nat \<Rightarrow> nat \<Rightarrow> int \<Rightarrow> target list \<Rightarrow> (target list \<times> nat) option" where
  \<comment> \<open>returns \<open>all_usernames\<close> and the number of scrolls made\<close>
  "legacy_scroll_loop page 0 i last_height all_usernames = Some (all_usernames, i)"
| "legacy_scroll_loop page (Suc k) i last_height all_usernames =
     (case legacy_extract_usernames_from_page (page i) of
        None \<Rightarrow> None
      | Some current_users \<Rightarrow>
          (let all_usernames = set_update all_usernames current_users;
               new_height = height_after (page i)
           in if new_height = last_height then Some (all_usernames, i + 1)
              else legacy_scroll_loop page k (i + 1) new_height all_usernames))"

definition legacy_scroll_and_collect :: "(nat \<Rightarrow> snapshot) \<Rightarrow> int \<Rightarrow> (target list \<times> nat) option" where
  "legacy_scroll_and_collect page max_scrolls =
     legacy_scroll_loop page (nat max_scrolls) 0 (height_before (page 0)) []"

section \<open>The campaign\<close>

text \<open>
  The state of an \<open>XDMSender\<close>, together with what the run does to the outside: the rows
  of the log file, the messages handed to \<open>notify_slack\<close>, the addresses handed to
  \<open>driver.get\<close> (both oldest first) and the number of \<open>datetime.now()\<close> calls so far.
  Sleeping changes none of these, so the pauses are left out of the run.
\<close>

datatype driver_state = NotStarted | Running | Quit

datatype notification =
    DailyReport string nat nat "string list"
      \<comment> \<open>the day, \<open>success_count\<close>, \<open>fail_count\<close> and the failed users shown\<close>
  | DailyReportError string
  | MonthlyReport string nat nat
      \<comment> \<open>the month, \<open>total_sent\<close> and the number of days with a send\<close>
  | SystemError string

record sender =
  sent_users :: "string set"
  blacklist_urls :: "string set"
  sent_count :: int
  driver :: driver_state
  log_file :: "row list"
  slack :: "notification list"
  visited :: "string list"
  ticks :: nat

text \<open>
  The outside world: the \<open>k\<close>-th value of \<open>datetime.now()\<close>, the log file found at start
  (\<open>None\<close>: no file), the spreadsheet, how starting Chrome ends, the message file (\<open>None\<close>:
  no file), the page behind an address (\<open>None\<close>: the browser raises while the address is
  worked on), the pair \<open>send_dm_to_user\<close> returns for a user, an address and a text
  (that function drives the browser only and catches every exception), and the list
  \<open>list(s)\<close> makes of a set \<open>s\<close> of targets: some arrangement of its elements, fixed by
  the hashes of the process.
\<close>

datatype driver_start = Started | NoSession string | BrokenSession string

record env =
  clock :: "nat \<Rightarrow> datetime"
  history_file :: "row list option"
  blacklist_provider :: "string + string list"
  chrome :: driver_start
  message_file :: "string option"
  browse :: "string \<Rightarrow> (nat \<Rightarrow> snapshot) option"
  send_dm_to_user :: "string \<Rightarrow> string \<Rightarrow> string \<Rightarrow> bool \<times> string"
  enumeration :: "target list \<Rightarrow> target list"

definition now :: "env \<Rightarrow> sender \<Rightarrow> datetime \<times> sender" where
  \<comment> \<open>\<open>datetime.now()\<close>\<close>
  "now e st = (clock e (ticks st), st\<lparr>ticks := Suc (ticks st)\<rparr>)"

definition notify_slack :: "notification \<Rightarrow> sender \<Rightarrow> sender" where
  "notify_slack message st = st\<lparr>slack := slack st @ [message]\<rparr>"

definition driver_get :: "string \<Rightarrow> sender \<Rightarrow> sender" where
  "driver_get address st = st\<lparr>visited := visited st @ [address]\<rparr>"

definition is_allowed_time :: "config \<Rightarrow> datetime \<Rightarrow> bool" where
  "is_allowed_time cfg t = (int (hour t) \<notin> set (blocked_hours cfg))"

definition default_message :: string where
  \<comment> \<open>stands for the Japanese greeting of six characters that the source returns when
      the message file is missing\<close>
  "default_message = ''hello!''"

definition load_message_text :: "env \<Rightarrow> string" where
  "load_message_text e = (case message_file e of Some text \<Rightarrow> strip text | None \<Rightarrow> default_message)"

definition filter_users :: "sender \<Rightarrow> target list \<Rightarrow> target list" where
  \<comment> \<open>the set comprehension of both discovery phases\<close>
  "filter_users st users =
     filter (\<lambda>(username, url). username \<notin> sent_users st \<and> url \<notin> blacklist_urls st) users"

definition search_url :: "string \<Rightarrow> string" where
  "search_url keyword = ''https://x.com/search?q='' @ keyword @ ''&src=typed_query&f=user''"

fun search_loop ::
  "config \<Rightarrow> env \<Rightarrow> string list \<Rightarrow> target list \<Rightarrow> sender \<Rightarrow> target list \<times> sender" where
  "search_loop cfg e [] all_users st = (all_users, st)"
| "search_loop cfg e (keyword # rest) all_users st =
     (if int (length all_users) \<ge> max_users_per_keyword cfg * int (length (search_keywords cfg))
      then (all_users, st)
      else (let st = driver_get (search_url keyword) st
            in case browse e (search_url keyword) of
                 None \<Rightarrow> search_loop cfg e rest all_users st
               | Some page \<Rightarrow>
                   (case scroll_and_collect page (max_scroll_per_page cfg) of
                      Inl _ \<Rightarrow> search_loop cfg e rest all_users st
                    | Inr (users, _) \<Rightarrow>
                        search_loop cfg e rest (set_update all_users (filter_users st users)) st)))"

definition search_users_by_keywords :: "config \<Rightarrow> env \<Rightarrow> sender \<Rightarrow> target list \<times> sender" where
  "search_users_by_keywords cfg e st = search_loop cfg e (search_keywords cfg) [] st"

definition following_url :: "string \<Rightarrow> string" where
  "following_url username = ''https://x.com/'' @ drop 1 username @ ''/following''"

fun following_loop ::
  "env \<Rightarrow> target list \<Rightarrow> target list \<Rightarrow> sender \<Rightarrow> target list \<times> sender" where
  "following_loop e [] following_users st = (following_users, st)"
| "following_loop e ((username, _) # rest) following_users st =
     (let st = driver_get (following_url username) st
      in case browse e (following_url username) of
           None \<Rightarrow> following_loop e rest following_users st
         | Some page \<Rightarrow>
             (case scroll_and_collect page 3 of
                Inl _ \<Rightarrow> following_loop e rest following_users st
              | Inr (users, _) \<Rightarrow>
                  following_loop e rest (set_update following_users (filter_users st users)) st))"

definition collect_following_users :: "env \<Rightarrow> target list \<Rightarrow> sender \<Rightarrow> target list \<times> sender" where
  "collect_following_users e target_users st =
     (let max_targets = min 10 (length target_users)
      in following_loop e (take max_targets target_users) [] st)"

definition log_sending_result ::
  "env \<Rightarrow> string \<Rightarrow> string \<Rightarrow> string \<Rightarrow> string \<Rightarrow> string \<Rightarrow> sender \<Rightarrow> sender" where
  "log_sending_result e username url status err message st =
     (let (t, st) = now e st
      in st\<lparr>log_file := log_file st @ [logged_row t username url status err message]\<rparr>)"

definition send_daily_report :: "env \<Rightarrow> sender \<Rightarrow> sender" where
  \<comment> \<open>the quotient in the report text raises \<open>ZeroDivisionError\<close> when both counts are 0\<close>
  "send_daily_report e st =
     (let (t, st) = now e st;
          today = strftime_Ymd t;
          todays = filter (\<lambda>r. startswith (row_date r) today) (log_file st);
          success_count = length (filter (\<lambda>r. row_status r = ''Success'') todays);
          failed = filter (\<lambda>r. row_status r \<noteq> ''Success'') todays;
          fail_count = length failed;
          failed_users = map (\<lambda>r. row_username r @ '' ('' @ take 30 (row_error r) @ '')'') failed
      in if success_count + fail_count = 0
         then notify_slack (DailyReportError ''division by zero'') st
         else notify_slack (DailyReport today success_count fail_count (take 5 failed_users)) st)"

definition send_monthly_report :: "config \<Rightarrow> env \<Rightarrow> sender \<Rightarrow> sender" where
  \<comment> \<open>an exception inside is logged and nothing is sent\<close>
  "send_monthly_report cfg e st =
     (let (t, st) = now e st
      in if int (day t) \<noteq> monthly_report_day cfg then st
         else (case minus_days (t\<lparr>day := 1\<rparr>) 1 of
                 None \<Rightarrow> st
               | Some last_month \<Rightarrow>
                   (let month_str = strftime_Ym last_month;
                        sent = filter (\<lambda>r. startswith (row_date r) month_str
                                            \<and> row_status r = ''Success'') (log_file st);
                        total_sent = length sent;
                        daily_counts = remdups (map (\<lambda>r. take 10 (row_date r)) sent)
                    in notify_slack (MonthlyReport month_str total_sent (length daily_counts)) st)))"

definition py_take :: "int \<Rightarrow> 'a list \<Rightarrow> 'a list" where
  \<comment> \<open>the slice \<open>xs[:n]\<close>: a negative \<open>n\<close> counts from the end\<close>
  "py_take n xs = (if n \<ge> 0 then take (nat n) xs else take (length xs - nat (- n)) xs)"

definition send_iteration ::
  "config \<Rightarrow> env \<Rightarrow> string \<Rightarrow> target \<Rightarrow> sender \<Rightarrow> sender + sender" where
  \<comment> \<open>one pass through the body of the send loop: \<open>Inl\<close> when it leaves by \<open>break\<close>,
      \<open>Inr\<close> when it reaches its end\<close>
  "send_iteration cfg e message_text tgt st =
     (case tgt of (username, url) \<Rightarrow>
        if sent_count st \<ge> max_messages_per_day cfg then Inl st
        else (let (t, st) = now e st
              in if \<not> is_allowed_time cfg t then Inl st
                 else (let st = driver_get url st;
                           (success, err) = send_dm_to_user e username url message_text;
                           status = (if success then ''Success'' else ''Failed'');
                           st = log_sending_result e username url status err message_text st
                       in if success
                          then Inr (st\<lparr>sent_count := sent_count st + 1,
                                      sent_users := insert username (sent_users st)\<rparr>)
                          else Inr st)))"

fun send_loop :: "config \<Rightarrow> env \<Rightarrow> string \<Rightarrow> target list \<Rightarrow> sender \<Rightarrow> sender" where
  "send_loop cfg e message_text [] st = st"
| "send_loop cfg e message_text (tgt # rest) st =
     (case send_iteration cfg e message_text tgt st of
        Inl st' \<Rightarrow> st'
      | Inr st' \<Rightarrow> send_loop cfg e message_text rest st')"

fun iteration_ends :: "config \<Rightarrow> env \<Rightarrow> string \<Rightarrow> target list \<Rightarrow> sender \<Rightarrow> sender list" where
  \<comment> \<open>the states at the end of the iterations of the send loop that reach their end\<close>
  "iteration_ends cfg e message_text [] st = []"
| "iteration_ends cfg e message_text (tgt # rest) st =
     (case send_iteration cfg e message_text tgt st of
        Inl st' \<Rightarrow> []
      | Inr st' \<Rightarrow> st' # iteration_ends cfg e message_text rest st')"

definition send_all :: "config \<Rightarrow> env \<Rightarrow> string \<Rightarrow> target list \<Rightarrow> sender \<Rightarrow> sender" where
  \<comment> \<open>the \<open>for\<close> statement of \<open>run\<close>: the loop over
      \<open>list(target_users)[:max_messages_per_day]\<close>\<close>
  "send_all cfg e message_text target_users st =
     send_loop cfg e message_text
       (py_take (max_messages_per_day cfg) (enumeration e target_users)) st"

definition collect_targets :: "config \<Rightarrow> env \<Rightarrow> sender \<Rightarrow> target list \<times> sender" where
  \<comment> \<open>both discovery phases of \<open>run\<close>\<close>
  "collect_targets cfg e st =
     (let (target_users, st) = search_users_by_keywords cfg e st
      in if int (length target_users) < max_messages_per_day cfg
         then (let (following_users, st) =
                     collect_following_users e (enumeration e target_users) st
               in (set_update target_users following_users, st))
         else (target_users, st))"

definition run_body :: "config \<Rightarrow> env \<Rightarrow> sender \<Rightarrow> sender" where
  \<comment> \<open>the \<open>try\<close> block of \<open>run\<close> with its \<open>except\<close> clause\<close>
  "run_body cfg e st =
     (let (t, st) = now e st
      in if \<not> is_allowed_time cfg t then st
         else (case chrome e of
                 NoSession err \<Rightarrow> notify_slack (SystemError err) st
               | BrokenSession err \<Rightarrow> notify_slack (SystemError err) (st\<lparr>driver := Running\<rparr>)
               | Started \<Rightarrow>
                   (let st = st\<lparr>driver := Running\<rparr>;
                        message_text = load_message_text e;
                        (target_users, st) = collect_targets cfg e st
                    in send_all cfg e message_text target_users st)))"

definition run :: "config \<Rightarrow> env \<Rightarrow> sender \<Rightarrow> sender" where
  "run cfg e st =
     (let st = run_body cfg e st;
          st = (if driver st = Running then st\<lparr>driver := Quit\<rparr> else st);
          st = send_daily_report e st
      in send_monthly_report cfg e st)"

definition initialise :: "config \<Rightarrow> env \<Rightarrow> (sender \<times> log_entry list) option" where
  \<comment> \<open>\<open>XDMSender.__init__\<close>: the state and the lines logged, \<open>None\<close> when it raises\<close>
  "initialise cfg e =
     (let st = \<lparr>sent_users = {}, blacklist_urls = {}, sent_count = 0, driver = NotStarted,
                log_file = (case history_file e of None \<Rightarrow> [] | Some rows \<Rightarrow> rows),
                slack = [], visited = [], ticks = 0\<rparr>;
          (today_date, st) = now e st;
          (t, st) = now e st
      in case load_sent_history cfg t (Some (log_file st)) (sent_users st) of
           None \<Rightarrow> None
         | Some (sent, line1) \<Rightarrow>
             (case load_blacklist (blacklist_provider e) of
                (blacklist, line2) \<Rightarrow>
                  Some (st\<lparr>sent_users := sent, blacklist_urls := blacklist\<rparr>, [line1, line2])))"

definition main :: "config \<Rightarrow> env \<Rightarrow> sender option" where
  \<comment> \<open>\<open>None\<close> when the construction raised, which \<open>main\<close> only logs\<close>
  "main cfg e = (case initialise cfg e of None \<Rightarrow> None | Some (st, _) \<Rightarrow> Some (run cfg e st))"

section \<open>Statistics\<close>

text \<open>
  \<open>MaintenanceTools.analyze_sending_statistics\<close>: the counters, the rate (an exact real in
  place of the float) and the three tables of the result; \<open>None\<close> is the empty dictionary
  returned when an exception reaches the outer handler. The ranking of the days and the
  recommendation texts, computed afterwards from these fields, are left out.
\<close>

record stats =
  total_attempts :: nat
  successful_sends :: nat
  failed_sends :: nat
  success_rate :: real
  daily_breakdown :: "string \<Rightarrow> nat \<times> nat"
  error_analysis :: "string \<Rightarrow> nat"
  hourly_pattern :: "nat \<Rightarrow> nat"

definition stats_init :: stats where
  "stats_init = \<lparr>total_attempts = 0, successful_sends = 0, failed_sends = 0, success_rate = 0,
     daily_breakdown = (\<lambda>_. (0, 0)), error_analysis = (\<lambda>_. 0), hourly_pattern = (\<lambda>_. 0)\<rparr>"

definition count_row :: "datetime \<Rightarrow> row \<Rightarrow> stats \<Rightarrow> stats" where
  \<comment> \<open>the body of the row loop\<close>
  "count_row cutoff_date r s =
     (case strptime (row_date r) FMT_HMS of
        None \<Rightarrow> s
      | Some send_date \<Rightarrow>
          (if dt_le cutoff_date send_date
           then (let s = s\<lparr>total_attempts := total_attempts s + 1\<rparr>;
                     day_key = strftime_Ymd send_date;
                     hour_key = hour send_date;
                     s = (if row_status r = ''Success''
                          then s\<lparr>successful_sends := successful_sends s + 1,
                                 daily_breakdown := (daily_breakdown s)
                                   (day_key := (fst (daily_breakdown s day_key) + 1,
                                                snd (daily_breakdown s day_key)))\<rparr>
                          else s\<lparr>failed_sends := failed_sends s + 1,
                                 daily_breakdown := (daily_breakdown s)
                                   (day_key := (fst (daily_breakdown s day_key),
                                                snd (daily_breakdown s day_key) + 1)),
                                 error_analysis := (error_analysis s)
                                   (take 50 (row_error r) :=
                                      error_analysis s (take 50 (row_error r)) + 1)\<rparr>)
                 in s\<lparr>hourly_pattern := (hourly_pattern s)
                         (hour_key := hourly_pattern s hour_key + 1)\<rparr>)
           else s))"

definition analyze_sending_statistics :: "datetime \<Rightarrow> int \<Rightarrow> row list option \<Rightarrow> stats option" where
  \<comment> \<open>\<open>t\<close> is the value of \<open>datetime.now()\<close>, the third argument the log file\<close>
  "analyze_sending_statistics t days file =
     (case minus_days t days of
        None \<Rightarrow> None
      | Some cutoff_date \<Rightarrow>
          (case file of
             None \<Rightarrow> None
           | Some rows \<Rightarrow>
               (let s = fold (count_row cutoff_date) rows stats_init;
                    s = (if total_attempts s > 0
                         then s\<lparr>success_rate :=
                                 real (successful_sends s) / real (total_attempts s) * 100\<rparr>
                         else s)
                in Some s)))"

section \<open>Window membership, address forms and page growth\<close>

text \<open>
  A row is inside the window that starts at \<open>cutoff\<close> when its date, read in the format
  of the log, is not before \<open>cutoff\<close>; a row whose date cannot be read is in no window.
  A scroll of a page produces no growth when it leaves the height of the document as it
  was.
\<close>

definition inside_window :: "datetime \<Rightarrow> row \<Rightarrow> bool" where
  "inside_window cutoff r =
     (case strptime (row_date r) FMT_HMS of None \<Rightarrow> False | Some d \<Rightarrow> dt_le cutoff d)"

definition profile_url :: "string \<Rightarrow> bool" where
  \<comment> \<open>an address in one of the two forms the blacklist accepts\<close>
  "profile_url u = (startswith u ''https://twitter.com'' \<or> startswith u ''https://x.com'')"

definition no_growth :: "(nat \<Rightarrow> snapshot) \<Rightarrow> nat \<Rightarrow> bool" where
  "no_growth page i = (height_after (page i) = height_before (page i))"

definition successes_inside :: "datetime \<Rightarrow> row list \<Rightarrow> nat" where
  \<comment> \<open>the number of Success rows inside the window\<close>
  "successes_inside cutoff rows =
     length (filter (\<lambda>r. inside_window cutoff r \<and> row_status r = ''Success'') rows)"

definition failures_inside :: "datetime \<Rightarrow> row list \<Rightarrow> nat" where
  \<comment> \<open>the number of Failed rows inside the window\<close>
  "failures_inside cutoff rows =
     length (filter (\<lambda>r. inside_window cutoff r \<and> row_status r = ''Failed'') rows)"

definition others_inside :: "datetime \<Rightarrow> row list \<Rightarrow> nat" where
  \<comment> \<open>the number of rows inside the window that are not Success rows\<close>
  "others_inside cutoff rows =
     length (filter (\<lambda>r. inside_window cutoff r \<and> row_status r \<noteq> ''Success'') rows)"

definition no_double_before :: "(nat \<Rightarrow> snapshot) \<Rightarrow> nat \<Rightarrow> bool" where
  \<comment> \<open>no two scrolls in a row among the first \<open>n\<close> were without growth\<close>
  "no_double_before page n =
     (\<forall>i. i + 1 < n \<longrightarrow> \<not> (no_growth page i \<and> no_growth page (i + 1)))"

fun width :: "directive \<Rightarrow> nat" where
  \<comment> \<open>the most characters a directive can match, white space not counted\<close>
  "width DY = 4"
| "width (Lit c) = 1"
| "width Space = 0"
| "width _ = 2"

definition blanks :: "string \<Rightarrow> nat" where
  \<comment> \<open>the number of white-space characters of a text\<close>
  "blanks s = length (filter is_space s)"

definition rows_written :: "sender option \<Rightarrow> row list" where
  \<comment> \<open>the log file a campaign leaves behind\<close>
  "rows_written result = (case result of None \<Rightarrow> [] | Some st \<Rightarrow> log_file st)"

definition notifications_sent :: "sender option \<Rightarrow> notification list" where
  "notifications_sent result = (case result of None \<Rightarrow> [] | Some st \<Rightarrow> slack st)"

definition addresses_visited :: "sender option \<Rightarrow> string list" where
  "addresses_visited result = (case result of None \<Rightarrow> [] | Some st \<Rightarrow> visited st)"

section \<open>Scenarios\<close>

text \<open>Concrete configurations and worlds on which the functions are evaluated.\<close>

definition at_time :: "nat \<Rightarrow> nat \<Rightarrow> nat \<Rightarrow> nat \<Rightarrow> nat \<Rightarrow> nat \<Rightarrow> datetime" where
  "at_time y m d h mi s =
     \<lparr>year = y, month = m, day = d, hour = h, minute = mi, second = s, microsecond = 0\<rparr>"

definition scenario_config :: config where
  "scenario_config =
     \<lparr>sent_history_reset_days = 90, blocked_hours = [0, 1, 2, 3, 4, 5, 6],
      min_wait_seconds = 10, max_wait_seconds = 10, max_messages_per_day = 3,
      search_keywords = [''vtuber''], max_users_per_keyword = 50, max_scroll_per_page = 5,
      monthly_report_day = 1\<rparr>"

definition static_page :: "string list \<Rightarrow> nat \<Rightarrow> snapshot" where
  \<comment> \<open>a page of fixed height whose user cells link to the given addresses\<close>
  "static_page hrefs i =
     \<lparr>found = (\<lambda>selector. Some (map (\<lambda>h. Href (Some h)) hrefs)),
      height_before = 1000, height_after = 1000\<rparr>"

definition scenario_env :: "datetime \<Rightarrow> string list \<Rightarrow> (string \<Rightarrow> bool) \<Rightarrow> env" where
  \<comment> \<open>the clock stands at \<open>t\<close>, there is no history, the search page shows \<open>hrefs\<close>, no
      other page opens, a message goes through unless \<open>fails\<close> holds of the user, and
      sets are enumerated in the order of discovery\<close>
  "scenario_env t hrefs fails =
     \<lparr>clock = (\<lambda>k. t), history_file = None, blacklist_provider = Inr [],
      chrome = Started, message_file = Some ''hi'',
      browse = (\<lambda>address. if address = search_url ''vtuber'' then Some (static_page hrefs)
                          else None),
      send_dm_to_user = (\<lambda>username url message.
         if fails username then (False, ''Message button not found'') else (True, ''Success'')),
      enumeration = (\<lambda>targets. targets)\<rparr>"

definition five_candidates :: "string list" where
  "five_candidates = [''https://x.com/u1'', ''https://x.com/u2'', ''https://x.com/u3'',
                      ''https://x.com/u4'', ''https://x.com/u5'']"

definition rows_with_status :: "string \<Rightarrow> row list \<Rightarrow> row list" where
  "rows_with_status s rows = filter (\<lambda>r. row_status r = s) rows"

definition fresh_sender :: sender where
  \<comment> \<open>the fields \<open>__init__\<close> sets before it reads anything, with an empty log\<close>
  "fresh_sender =
     \<lparr>sent_users = {}, blacklist_urls = {}, sent_count = 0, driver = NotStarted,
      log_file = [], slack = [], visited = [], ticks = 0\<rparr>"

definition noon :: datetime where
  "noon = at_time 2024 6 15 12 0 0"

definition night :: datetime where
  "night = at_time 2024 6 15 2 0 0"

definition five_targets :: "target list" where
  "five_targets =
     [(''@u1'', ''https://x.com/u1''), (''@u2'', ''https://x.com/u2''),
      (''@u3'', ''https://x.com/u3''), (''@u4'', ''https://x.com/u4''),
      (''@u5'', ''https://x.com/u5'')]"

definition third_fails :: "string \<Rightarrow> bool" where
  "third_fails u = (u = ''@u3'')"

definition nobody_fails :: "string \<Rightarrow> bool" where
  "nobody_fails u = False"

definition two_addresses :: "string list" where
  \<comment> \<open>one handle under two addresses\<close>
  "two_addresses = [''https://twitter.com/alice'', ''https://x.com/alice'']"

definition earlier_success :: row where
  \<comment> \<open>a row of an earlier campaign, one second inside the window of 90 days before \<open>noon\<close>\<close>
  "earlier_success =
     logged_row (at_time 2024 3 17 12 0 1) ''@alice'' ''https://x.com/alice''
       ''Success'' ''Success'' ''hi''"

definition revisit_env :: env where
  "revisit_env =
     (scenario_env noon [''https://x.com/alice''] nobody_fails)
       \<lparr>history_file := Some [earlier_success]\<rparr>"

definition failing_sheet_env :: env where
  "failing_sheet_env =
     (scenario_env noon five_candidates third_fails)
       \<lparr>blacklist_provider := Inl ''quota exceeded''\<rparr>"

definition growing_page :: "nat \<Rightarrow> snapshot" where
  \<comment> \<open>a page of fixed height that shows one more user at every look\<close>
  "growing_page i =
     \<lparr>found = (\<lambda>selector. Some (map (\<lambda>h. Href (Some h))
                 (take (Suc i) [''https://x.com/a'', ''https://x.com/b'', ''https://x.com/c'']))),
      height_before = 1000, height_after = 1000\<rparr>"

definition settling_page :: "nat \<Rightarrow> snapshot" where
  \<comment> \<open>a page that grows with the first two scrolls and then stays as it is\<close>
  "settling_page i =
     \<lparr>found = (\<lambda>selector. Some [Href (Some ''https://x.com/a'')]),
      height_before = 1000 + 500 * int (min i 2),
      height_after = 1000 + 500 * int (min (Suc i) 2)\<rparr>"

definition week_rows :: "row list" where
  \<comment> \<open>a log with one Success and one Failed row inside the week before \<open>noon\<close>, an older
      Success row and a row whose date has no seconds\<close>
  "week_rows =
     [logged_row (at_time 2024 6 1 9 0 0) ''@a'' ''https://x.com/a'' ''Success'' ''Success'' ''hi'',
      logged_row (at_time 2024 6 10 9 0 0) ''@b'' ''https://x.com/b'' ''Success'' ''Success'' ''hi'',
      logged_row (at_time 2024 6 11 9 30 0) ''@c'' ''https://x.com/c'' ''Failed''
        ''Message button not found'' ''hi'',
      \<lparr>row_date = ''2024-06-12 10:00'', row_username = ''@d'', row_url = ''https://x.com/d'',
       row_status = ''Success'', row_error = ''Success'', row_message_sent = ''hi''\<rparr>]"

section \<open>Pacing: the fatigue tiers\<close>

text \<open>
  C7. The delay is the base draw, times 1.5 once the counter has passed 100 and times 2.0
  once it has passed 300, plus a long break with probability one tenth. In the code the
  test for 300 sits in the \<open>elif\<close> of the test for 100 and is never reached: with a base
  delay of 10 seconds, no long break and a counter of 301 the delay is 15 seconds, where
  the second tier would give 20.
\<close>

theorem wait_between_actions_past_second_threshold:
  "wait_between_actions scenario_config 301 0 (1/2) 0 = 15
   \<and> wait_between_actions scenario_config 301 0 (1/2) 0 \<noteq> 2.0 * uniform 10 10 0"
  by (simp add: wait_between_actions_def scenario_config_def uniform_def)

section \<open>Blacklist: what the refresh keeps\<close>

lemma startswith_append: "startswith (p @ rest) p"
  by (simp add: startswith_def)

lemma startswith_decompose: "startswith s p \<Longrightarrow> \<exists>rest. s = p @ rest"
  unfolding startswith_def by (metis append_take_drop_id)

text \<open>Stripping cannot remove a prefix that begins and ends with a visible character.\<close>

lemma strip_keeps_prefix:
  assumes "p \<noteq> []" "\<not> is_space (hd p)" "\<not> is_space (last p)" "startswith s p"
  shows "startswith (strip s) p"
proof -
  from assms(4) obtain rest where s: "s = p @ rest"
    using startswith_decompose by blast
  from assms(1,2) have front: "dropWhile is_space s = s"
    unfolding s by (cases p) simp_all
  have "\<exists>xs. dropWhile is_space (rev rest @ rev p) = xs @ rev p"
  proof (cases "\<forall>c \<in> set (rev rest). is_space c")
    case True
    then have "dropWhile is_space (rev rest @ rev p) = dropWhile is_space (rev p)"
      by (simp add: dropWhile_append)
    also from assms(1,3) have "\<dots> = rev p"
      by (cases "rev p") (auto simp: last_rev hd_rev)
    finally show ?thesis by simp
  next
    case False
    then have "dropWhile is_space (rev rest @ rev p) = dropWhile is_space (rev rest) @ rev p"
      by (auto simp: dropWhile_append)
    then show ?thesis by blast
  qed
  then obtain xs where "dropWhile is_space (rev s) = xs @ rev p"
    unfolding s by auto
  then have "strip s = p @ rev xs"
    by (simp add: strip_def front)
  then show ?thesis
    by (simp add: startswith_append)
qed

lemma profile_url_strip: "profile_url u \<Longrightarrow> profile_url (strip u)"
proof -
  have a: "startswith u ''https://twitter.com'' \<Longrightarrow> startswith (strip u) ''https://twitter.com''"
    by (rule strip_keeps_prefix) (simp_all add: is_space_def)
  have b: "startswith u ''https://x.com'' \<Longrightarrow> startswith (strip u) ''https://x.com''"
    by (rule strip_keeps_prefix) (simp_all add: is_space_def)
  assume "profile_url u"
  with a b show ?thesis
    unfolding profile_url_def by blast
qed

lemma blacklist_keep_profile_url: "blacklist_keep u \<Longrightarrow> profile_url u"
  by (simp add: blacklist_keep_def profile_url_def)

text \<open>
  C10. Every address in the refreshed blacklist is a stripped entry of the sheet that
  starts with \<open>https://twitter.com\<close> or \<open>https://x.com\<close>; an entry which does not
  start so after stripping leaves no trace in the set; hence a candidate whose
  address has another form is never removed by the blacklist test of the filter.
\<close>

theorem load_blacklist_keeps_profile_urls_only:
  assumes "load_blacklist (Inr urls) = (blacklist, line)"
  shows "(\<forall>u \<in> blacklist. \<exists>entry \<in> set urls. u = strip entry \<and> profile_url (strip entry))
       \<and> (\<forall>entry \<in> set urls. entry \<noteq> [] \<and> \<not> profile_url (strip entry)
             \<longrightarrow> entry \<notin> blacklist \<and> strip entry \<notin> blacklist)
       \<and> (\<forall>st users username url. blacklist_urls st = blacklist \<and> \<not> profile_url url
             \<and> (username, url) \<in> set users \<and> username \<notin> sent_users st
             \<longrightarrow> (username, url) \<in> set (filter_users st users))"
proof -
  from assms have bl: "blacklist = strip ` {u \<in> set urls. blacklist_keep u}"
    by (auto simp: load_blacklist_def Let_def)
  have members: "\<And>u. u \<in> blacklist
      \<Longrightarrow> \<exists>entry \<in> set urls. u = strip entry \<and> profile_url (strip entry)"
    unfolding bl using blacklist_keep_profile_url profile_url_strip by blast
  have prefix: "\<And>u. u \<in> blacklist \<Longrightarrow> profile_url u"
    using members by blast
  have dropped: "\<And>entry. \<not> profile_url (strip entry)
      \<Longrightarrow> entry \<notin> blacklist \<and> strip entry \<notin> blacklist"
    using prefix profile_url_strip by blast
  have kept: "\<And>st users username url. blacklist_urls st = blacklist \<Longrightarrow> \<not> profile_url url
      \<Longrightarrow> (username, url) \<in> set users \<Longrightarrow> username \<notin> sent_users st
      \<Longrightarrow> (username, url) \<in> set (filter_users st users)"
    using prefix by (auto simp: filter_users_def)
  from members dropped kept show ?thesis by blast
qed

theorem load_blacklist_keeps_profile_urls_only_witness:
  "load_blacklist (Inr ['' https://x.com/a'', ''https://x.com/b  '', ''x.com/c'', ''''])
     = ({''https://x.com/b''}, (INFO, LoadedBlacklist 1))
   \<and> ''x.com/c'' \<notin> {''https://x.com/b''}
   \<and> (''@c'', ''x.com/c'') \<in> set (filter_users
         \<lparr>sent_users = {}, blacklist_urls = {''https://x.com/b''}, sent_count = 0,
          driver = NotStarted, log_file = [], slack = [], visited = [], ticks = 0\<rparr>
         [(''@c'', ''x.com/c'')])"
proof -
  have h: "load_blacklist (Inr ['' https://x.com/a'', ''https://x.com/b  '', ''x.com/c'', ''''])
     = ({''https://x.com/b''}, (INFO, LoadedBlacklist 1))"
    by (simp add: load_blacklist_def blacklist_keep_def startswith_def strip_def is_space_def)
  have np: "\<not> profile_url ''x.com/c''"
    by (simp add: profile_url_def startswith_def)
  have st: "strip ''x.com/c'' = ''x.com/c''"
    by (simp add: strip_def is_space_def)
  from load_blacklist_keeps_profile_urls_only [OF h] np st h show ?thesis
    by simp
qed

section \<open>Evaluating the scenarios\<close>

lemmas date_defs = minus_days_def at_time_def ymd2ord_def ord2ymd_def days_before_year_def
  days_before_month_def DAYS_BEFORE_MONTH_def DAYS_IN_MONTH_def is_leap_def days_in_month_def
  strftime_YmdHMS_def strftime_Ymd_def strftime_Ym_def pad2_def pad4_def digit_char_def
  strptime_def FMT_HMS_def FMT_HM_def strptime_defaults_def digit_of_def valid_datetime_def
  dt_less_def dt_le_def dt_fields_def is_space_def

lemma scroll_loop_step:
  "0 < k \<Longrightarrow> scroll_loop page k scroll stable_count all_usernames =
     (let snap = page scroll;
          current_users = extract_usernames_from_page snap;
          all_usernames = set_update all_usernames current_users;
          current_height = height_before snap;
          new_height = height_after snap
      in if new_height = current_height
         then (if stable_count + 1 \<ge> 2 then (all_usernames, scroll + 1)
               else scroll_loop page (k - 1) (scroll + 1) (stable_count + 1) all_usernames)
         else scroll_loop page (k - 1) (scroll + 1) 0 all_usernames)"
  by (cases k) (simp_all add: Let_def)

lemma static_page_height:
  "height_before (static_page hrefs i) = 1000" "height_after (static_page hrefs i) = 1000"
  by (simp_all add: static_page_def)

lemma scenario_env_fields:
  "clock (scenario_env t hrefs fails) k = t"
  "history_file (scenario_env t hrefs fails) = None"
  "blacklist_provider (scenario_env t hrefs fails) = Inr []"
  "chrome (scenario_env t hrefs fails) = Started"
  "message_file (scenario_env t hrefs fails) = Some ''hi''"
  "browse (scenario_env t hrefs fails) (search_url ''vtuber'') = Some (static_page hrefs)"
  "send_dm_to_user (scenario_env t hrefs fails) username url message =
     (if fails username then (False, ''Message button not found'') else (True, ''Success''))"
  "enumeration (scenario_env t hrefs fails) targets = targets"
  by (simp_all add: scenario_env_def)

lemma scenario_config_fields:
  "search_keywords scenario_config = [''vtuber'']"
  "max_users_per_keyword scenario_config = 50"
  "max_scroll_per_page scenario_config = 5"
  "max_messages_per_day scenario_config = 3"
  by (simp_all add: scenario_config_def)

lemma initialise_scenario:
  assumes "minus_days t 90 = Some c"
  shows "initialise scenario_config (scenario_env t hrefs fails)
     = Some (fresh_sender\<lparr>ticks := 2\<rparr>, [(INFO, LoadedHistory 0), (INFO, LoadedBlacklist 0)])"
  using assms
  by (simp add: initialise_def scenario_env_fields now_def load_sent_history_def
        load_blacklist_def scenario_config_def fresh_sender_def Let_def)

lemma noon_window: "minus_days noon 90 = Some (at_time 2024 3 17 12 0 0)"
  by (simp add: noon_def date_defs Let_def)

lemma night_window: "minus_days night 90 = Some (at_time 2024 3 17 2 0 0)"
  by (simp add: night_def date_defs Let_def)

lemma noon_text:
  "strftime_Ymd noon = ''2024-06-15''" "strftime_YmdHMS noon = ''2024-06-15 12:00:00''"
  by (simp_all add: noon_def date_defs)

lemma noon_allowed: "is_allowed_time scenario_config noon"
  by (simp add: is_allowed_time_def scenario_config_def noon_def at_time_def)

lemma noon_not_report_day: "int (day noon) \<noteq> monthly_report_day scenario_config"
  by (simp add: noon_def at_time_def scenario_config_def)

lemma no_monthly_report:
  "int (day t) \<noteq> monthly_report_day cfg \<Longrightarrow> clock e (ticks st) = t
     \<Longrightarrow> send_monthly_report cfg e st = st\<lparr>ticks := Suc (ticks st)\<rparr>"
  by (simp add: send_monthly_report_def now_def)

lemma filter_users_none:
  "sent_users st = {} \<Longrightarrow> blacklist_urls st = {} \<Longrightarrow> filter_users st users = users"
  by (simp add: filter_users_def case_prod_unfold)

lemma started_sender:
  "fresh_sender\<lparr>ticks := 2\<rparr>\<lparr>ticks := Suc (ticks (fresh_sender\<lparr>ticks := 2\<rparr>))\<rparr>\<lparr>driver := Running\<rparr>
     = fresh_sender\<lparr>ticks := 3, driver := Running\<rparr>"
  by (simp add: fresh_sender_def)

lemma message_hi: "load_message_text (scenario_env t hrefs fails) = ''hi''"
  by (simp add: load_message_text_def scenario_env_fields strip_def is_space_def)

subsection \<open>Five candidates, the third of which fails\<close>

lemma extract_five:
  "extract_usernames_from_page (static_page five_candidates i) = five_targets"
  by (simp add: extract_usernames_from_page_def static_page_def five_candidates_def
        five_targets_def username_of_href_def startswith_def set_add_def Let_def)

lemma scroll_five: "scroll_and_collect (static_page five_candidates) 5 = Inr (five_targets, 2)"
  by (simp add: scroll_and_collect_def scroll_loop_step extract_five static_page_height
        set_update_def set_add_def five_targets_def Let_def)

lemma collect_five:
  "collect_targets scenario_config (scenario_env t five_candidates fails)
       (fresh_sender\<lparr>ticks := k, driver := Running\<rparr>)
     = (five_targets, fresh_sender\<lparr>ticks := k, driver := Running,
          visited := [search_url ''vtuber'']\<rparr>)"
proof -
  have len: "length five_targets = 5"
    by (simp add: five_targets_def)
  have upd: "set_update [] five_targets = five_targets"
    by (simp add: set_update_def set_add_def five_targets_def)
  show ?thesis
    by (simp add: collect_targets_def search_users_by_keywords_def scenario_config_fields
        scenario_env_fields driver_get_def scroll_five filter_users_none upd len
        fresh_sender_def Let_def)
qed

lemma send_five:
  "send_loop scenario_config (scenario_env noon five_candidates third_fails) ''hi''
      (take 3 five_targets)
      (fresh_sender\<lparr>ticks := 3, driver := Running, visited := [search_url ''vtuber'']\<rparr>)
   = fresh_sender\<lparr>ticks := 9, driver := Running,
        visited := [search_url ''vtuber'', ''https://x.com/u1'', ''https://x.com/u2'',
                    ''https://x.com/u3''],
        sent_count := 2, sent_users := {''@u1'', ''@u2''},
        log_file :=
          [logged_row noon ''@u1'' ''https://x.com/u1'' ''Success'' ''Success'' ''hi'',
           logged_row noon ''@u2'' ''https://x.com/u2'' ''Success'' ''Success'' ''hi'',
           logged_row noon ''@u3'' ''https://x.com/u3'' ''Failed''
             ''Message button not found'' ''hi'']\<rparr>"
  by (simp add: five_targets_def fresh_sender_def send_iteration_def scenario_env_fields
        now_def noon_allowed scenario_config_fields driver_get_def log_sending_result_def
        third_fails_def Let_def insert_commute)

lemma ends_five:
  "map sent_count
     (iteration_ends scenario_config (scenario_env noon five_candidates third_fails) ''hi''
        (take 3 five_targets)
        (fresh_sender\<lparr>ticks := 3, driver := Running, visited := [search_url ''vtuber'']\<rparr>))
   = [1, 2, 2]"
  by (simp add: five_targets_def fresh_sender_def send_iteration_def scenario_env_fields
        now_def noon_allowed scenario_config_fields driver_get_def log_sending_result_def
        third_fails_def Let_def)

lemma run_body_five:
  "run_body scenario_config (scenario_env noon five_candidates third_fails)
      (fresh_sender\<lparr>ticks := 2\<rparr>)
   = fresh_sender\<lparr>ticks := 9, driver := Running,
        visited := [search_url ''vtuber'', ''https://x.com/u1'', ''https://x.com/u2'',
                    ''https://x.com/u3''],
        sent_count := 2, sent_users := {''@u1'', ''@u2''},
        log_file :=
          [logged_row noon ''@u1'' ''https://x.com/u1'' ''Success'' ''Success'' ''hi'',
           logged_row noon ''@u2'' ''https://x.com/u2'' ''Success'' ''Success'' ''hi'',
           logged_row noon ''@u3'' ''https://x.com/u3'' ''Failed''
             ''Message button not found'' ''hi'']\<rparr>"
proof -
  have tk: "py_take 3 five_targets = take 3 five_targets"
    by (simp add: py_take_def)
  show ?thesis
    by (simp add: run_body_def send_all_def now_def scenario_env_fields noon_allowed
          started_sender collect_five scenario_config_fields message_hi tk send_five
          del: take_Suc_Cons)
qed

lemma main_five:
  "main scenario_config (scenario_env noon five_candidates third_fails)
   = Some (fresh_sender\<lparr>ticks := 11, driver := Quit,
        visited := [search_url ''vtuber'', ''https://x.com/u1'', ''https://x.com/u2'',
                    ''https://x.com/u3''],
        sent_count := 2, sent_users := {''@u1'', ''@u2''},
        log_file :=
          [logged_row noon ''@u1'' ''https://x.com/u1'' ''Success'' ''Success'' ''hi'',
           logged_row noon ''@u2'' ''https://x.com/u2'' ''Success'' ''Success'' ''hi'',
           logged_row noon ''@u3'' ''https://x.com/u3'' ''Failed''
             ''Message button not found'' ''hi''],
        slack := [DailyReport ''2024-06-15'' 2 1 [''@u3 (Message button not found)'']]\<rparr>)"
proof -
  have "run scenario_config (scenario_env noon five_candidates third_fails)
      (fresh_sender\<lparr>ticks := 2\<rparr>)
   = fresh_sender\<lparr>ticks := 11, driver := Quit,
        visited := [search_url ''vtuber'', ''https://x.com/u1'', ''https://x.com/u2'',
                    ''https://x.com/u3''],
        sent_count := 2, sent_users := {''@u1'', ''@u2''},
        log_file :=
          [logged_row noon ''@u1'' ''https://x.com/u1'' ''Success'' ''Success'' ''hi'',
           logged_row noon ''@u2'' ''https://x.com/u2'' ''Success'' ''Success'' ''hi'',
           logged_row noon ''@u3'' ''https://x.com/u3'' ''Failed''
             ''Message button not found'' ''hi''],
        slack := [DailyReport ''2024-06-15'' 2 1 [''@u3 (Message button not found)'']]\<rparr>"
    unfolding run_def run_body_five
    by (simp add: fresh_sender_def send_daily_report_def now_def scenario_env_fields
        noon_text logged_row_def startswith_def notify_slack_def
        no_monthly_report [OF noon_not_report_day] Let_def)
  then show ?thesis
    by (simp add: main_def initialise_scenario [OF noon_window])
qed

subsection \<open>One handle under two addresses\<close>

lemma extract_two:
  "extract_usernames_from_page (static_page two_addresses i)
     = [(''@alice'', ''https://twitter.com/alice''), (''@alice'', ''https://x.com/alice'')]"
  by (simp add: extract_usernames_from_page_def static_page_def two_addresses_def
        username_of_href_def startswith_def set_add_def Let_def)

lemma scroll_two:
  "scroll_and_collect (static_page two_addresses) 5
     = Inr ([(''@alice'', ''https://twitter.com/alice''), (''@alice'', ''https://x.com/alice'')], 2)"
  by (simp add: scroll_and_collect_def scroll_loop_step extract_two static_page_height
        set_update_def set_add_def Let_def)

lemma no_following_page:
  "browse (scenario_env t hrefs fails) (following_url ''@alice'') = None"
  by (simp add: scenario_env_def following_url_def search_url_def)

lemma collect_two:
  "collect_targets scenario_config (scenario_env t two_addresses fails)
       (fresh_sender\<lparr>ticks := k, driver := Running\<rparr>)
     = ([(''@alice'', ''https://twitter.com/alice''), (''@alice'', ''https://x.com/alice'')],
        fresh_sender\<lparr>ticks := k, driver := Running,
          visited := [search_url ''vtuber'', following_url ''@alice'',
                      following_url ''@alice'']\<rparr>)"
  by (simp add: collect_targets_def search_users_by_keywords_def scenario_config_fields
        scenario_env_fields driver_get_def scroll_two filter_users_none fresh_sender_def
        Let_def collect_following_users_def no_following_page set_update_def set_add_def)

lemma run_body_two:
  "run_body scenario_config (scenario_env noon two_addresses nobody_fails)
      (fresh_sender\<lparr>ticks := 2\<rparr>)
   = fresh_sender\<lparr>ticks := 7, driver := Running,
        visited := [search_url ''vtuber'', following_url ''@alice'', following_url ''@alice'',
                    ''https://twitter.com/alice'', ''https://x.com/alice''],
        sent_count := 2, sent_users := {''@alice''},
        log_file :=
          [logged_row noon ''@alice'' ''https://twitter.com/alice'' ''Success'' ''Success'' ''hi'',
           logged_row noon ''@alice'' ''https://x.com/alice'' ''Success'' ''Success'' ''hi'']\<rparr>"
proof -
  have body: "run_body scenario_config (scenario_env noon two_addresses nobody_fails)
      (fresh_sender\<lparr>ticks := 2\<rparr>)
    = send_loop scenario_config (scenario_env noon two_addresses nobody_fails) ''hi''
        [(''@alice'', ''https://twitter.com/alice''), (''@alice'', ''https://x.com/alice'')]
        (fresh_sender\<lparr>ticks := 3, driver := Running,
          visited := [search_url ''vtuber'', following_url ''@alice'',
                      following_url ''@alice'']\<rparr>)"
    by (simp add: run_body_def send_all_def now_def scenario_env_fields noon_allowed
          started_sender collect_two scenario_config_fields message_hi py_take_def)
  show ?thesis
    unfolding body
    by (simp add: fresh_sender_def send_iteration_def scenario_env_fields now_def
        noon_allowed scenario_config_fields driver_get_def log_sending_result_def
        nobody_fails_def Let_def)
qed

lemma main_two:
  "main scenario_config (scenario_env noon two_addresses nobody_fails)
   = Some (fresh_sender\<lparr>ticks := 9, driver := Quit,
        visited := [search_url ''vtuber'', following_url ''@alice'', following_url ''@alice'',
                    ''https://twitter.com/alice'', ''https://x.com/alice''],
        sent_count := 2, sent_users := {''@alice''},
        log_file :=
          [logged_row noon ''@alice'' ''https://twitter.com/alice'' ''Success'' ''Success'' ''hi'',
           logged_row noon ''@alice'' ''https://x.com/alice'' ''Success'' ''Success'' ''hi''],
        slack := [DailyReport ''2024-06-15'' 2 0 []]\<rparr>)"
proof -
  have "run scenario_config (scenario_env noon two_addresses nobody_fails)
      (fresh_sender\<lparr>ticks := 2\<rparr>)
     = fresh_sender\<lparr>ticks := 9, driver := Quit,
        visited := [search_url ''vtuber'', following_url ''@alice'', following_url ''@alice'',
                    ''https://twitter.com/alice'', ''https://x.com/alice''],
        sent_count := 2, sent_users := {''@alice''},
        log_file :=
          [logged_row noon ''@alice'' ''https://twitter.com/alice'' ''Success'' ''Success'' ''hi'',
           logged_row noon ''@alice'' ''https://x.com/alice'' ''Success'' ''Success'' ''hi''],
        slack := [DailyReport ''2024-06-15'' 2 0 []]\<rparr>"
    unfolding run_def run_body_two
    by (simp add: fresh_sender_def send_daily_report_def now_def scenario_env_fields
        noon_text logged_row_def startswith_def notify_slack_def
        no_monthly_report [OF noon_not_report_day] Let_def)
  then show ?thesis
    by (simp add: main_def initialise_scenario [OF noon_window])
qed

subsection \<open>A start inside the blocked hours\<close>

lemma main_night:
  "main scenario_config (scenario_env night five_candidates nobody_fails)
   = Some (fresh_sender\<lparr>ticks := 5, slack := [DailyReportError ''division by zero'']\<rparr>)"
proof -
  have blocked: "\<not> is_allowed_time scenario_config night"
    by (simp add: is_allowed_time_def scenario_config_def night_def at_time_def)
  have day: "int (day night) \<noteq> monthly_report_day scenario_config"
    by (simp add: night_def at_time_def scenario_config_def)
  have body: "run_body scenario_config (scenario_env night five_candidates nobody_fails)
      (fresh_sender\<lparr>ticks := 2\<rparr>) = fresh_sender\<lparr>ticks := 3\<rparr>"
    by (simp add: run_body_def now_def scenario_env_fields blocked fresh_sender_def)
  have "run scenario_config (scenario_env night five_candidates nobody_fails)
      (fresh_sender\<lparr>ticks := 2\<rparr>)
     = fresh_sender\<lparr>ticks := 5, slack := [DailyReportError ''division by zero'']\<rparr>"
    unfolding run_def body
    by (simp add: fresh_sender_def send_daily_report_def now_def scenario_env_fields
        notify_slack_def no_monthly_report [OF day] Let_def)
  then show ?thesis
    by (simp add: main_def initialise_scenario [OF night_window])
qed

section \<open>The rolling window of the history\<close>

lemma two_digits_consumed:
  "(v, rest) \<in> set (two_digits p q s) \<Longrightarrow> \<exists>a b. s = a # b # rest"
  by (cases "(p, q, s)" rule: two_digits.cases) (auto split: option.splits if_splits)

lemma one_digit_consumed:
  "(v, rest) \<in> set (one_digit p s) \<Longrightarrow> \<exists>a. s = a # rest"
  by (cases "(p, s)" rule: one_digit.cases) (auto split: option.splits if_splits)

lemma four_digits_consumed:
  "(v, rest) \<in> set (four_digits s) \<Longrightarrow> \<exists>a b c d. s = a # b # c # d # rest"
  by (cases s rule: four_digits.cases) (auto split: option.splits if_splits)

lemma spaces_consumed:
  "(v, rest) \<in> set (spaces s) \<Longrightarrow> \<exists>pre. s = pre @ rest \<and> length pre = blanks pre"
proof (induction s)
  case Nil
  then show ?case by simp
next
  case (Cons c cs)
  show ?case
  proof (cases "is_space c")
    case True
    with Cons.prems consider "(v, rest) \<in> set (spaces cs)" | "rest = cs"
      by auto
    then show ?thesis
    proof cases
      case 1
      from Cons.IH [OF 1] obtain pre where "cs = pre @ rest" "length pre = blanks pre"
        by blast
      with True have "c # cs = (c # pre) @ rest \<and> length (c # pre) = blanks (c # pre)"
        by (simp add: blanks_def)
      then show ?thesis by blast
    next
      case 2
      with True have "c # cs = [c] @ rest \<and> length [c] = blanks [c]"
        by (simp add: blanks_def)
      then show ?thesis by blast
    qed
  next
    case False
    with Cons.prems show ?thesis by simp
  qed
qed

lemma two_digits_short:
  assumes "(v, rest) \<in> set (two_digits p q s)"
  shows "\<exists>pre. s = pre @ rest \<and> length pre \<le> 2 + blanks pre"
proof -
  from two_digits_consumed [OF assms] obtain a b where "s = [a, b] @ rest" by auto
  then show ?thesis by (intro exI [of _ "[a, b]"]) simp
qed

lemma one_digit_short:
  assumes "(v, rest) \<in> set (one_digit p s)"
  shows "\<exists>pre. s = pre @ rest \<and> length pre \<le> 2 + blanks pre"
proof -
  from one_digit_consumed [OF assms] obtain a where "s = [a] @ rest" by auto
  then show ?thesis by (intro exI [of _ "[a]"]) simp
qed

lemma blank_digit_short:
  assumes "(v, rest) \<in> set (case s of c # r \<Rightarrow> (if c = CHR '' '' then one_digit p r else [])
                                | [] \<Rightarrow> [])"
  shows "\<exists>pre. s = pre @ rest \<and> length pre \<le> 2 + blanks pre"
proof (cases s)
  case Nil
  with assms show ?thesis by simp
next
  case (Cons c r)
  with assms have "(v, rest) \<in> set (one_digit p r)"
    by (simp split: if_splits)
  from one_digit_consumed [OF this] obtain a where "r = a # rest" by auto
  with Cons have "s = [c, a] @ rest" by simp
  then show ?thesis by (intro exI [of _ "[c, a]"]) simp
qed

lemma alternatives_consumed:
  assumes "(v, rest) \<in> set (alternatives f s)"
  shows "\<exists>pre. s = pre @ rest \<and> length pre \<le> width f + blanks pre"
proof (cases f)
  case DY
  with assms four_digits_consumed [of v rest s]
  obtain a b c d where "s = [a, b, c, d] @ rest" by auto
  with DY show ?thesis by (intro exI [of _ "[a, b, c, d]"]) simp
next
  case Space
  with assms spaces_consumed [of v rest s] show ?thesis by auto
next
  case (Lit c)
  with assms have "s = [c] @ rest"
    by (auto split: list.splits if_splits)
  with Lit show ?thesis by (intro exI [of _ "[c]"]) simp
next
  case Dm
  from assms have "(v, rest) \<in> set (two_digits (\<lambda>x. x = 1) (\<lambda>y. y \<le> 2) s)
      \<or> (v, rest) \<in> set (two_digits (\<lambda>x. x = 0) (\<lambda>y. 1 \<le> y) s)
      \<or> (v, rest) \<in> set (one_digit (\<lambda>x. 1 \<le> x) s)"
    unfolding Dm by (simp only: alternatives.simps set_append Un_iff)
  then have "\<exists>pre. s = pre @ rest \<and> length pre \<le> 2 + blanks pre"
    by (elim disjE) (erule two_digits_short one_digit_short)+
  then show ?thesis unfolding Dm by (simp only: width.simps)
next
  case Dd
  from assms have "(v, rest) \<in> set (two_digits (\<lambda>x. x = 3) (\<lambda>y. y \<le> 1) s)
      \<or> (v, rest) \<in> set (two_digits (\<lambda>x. 1 \<le> x \<and> x \<le> 2) (\<lambda>y. True) s)
      \<or> (v, rest) \<in> set (two_digits (\<lambda>x. x = 0) (\<lambda>y. 1 \<le> y) s)
      \<or> (v, rest) \<in> set (one_digit (\<lambda>x. 1 \<le> x) s)
      \<or> (v, rest) \<in> set (case s of
             c # rest \<Rightarrow> (if c = CHR '' '' then one_digit (\<lambda>x. 1 \<le> x) rest else [])
           | [] \<Rightarrow> [])"
    unfolding Dd by (simp only: alternatives.simps set_append Un_iff)
  then have "\<exists>pre. s = pre @ rest \<and> length pre \<le> 2 + blanks pre"
    by (elim disjE) (erule two_digits_short one_digit_short blank_digit_short)+
  then show ?thesis unfolding Dd by (simp only: width.simps)
next
  case DH
  from assms have "(v, rest) \<in> set (two_digits (\<lambda>x. x = 2) (\<lambda>y. y \<le> 3) s)
      \<or> (v, rest) \<in> set (two_digits (\<lambda>x. x \<le> 1) (\<lambda>y. True) s)
      \<or> (v, rest) \<in> set (one_digit (\<lambda>x. True) s)"
    unfolding DH by (simp only: alternatives.simps set_append Un_iff)
  then have "\<exists>pre. s = pre @ rest \<and> length pre \<le> 2 + blanks pre"
    by (elim disjE) (erule two_digits_short one_digit_short)+
  then show ?thesis unfolding DH by (simp only: width.simps)
next
  case DM
  from assms have "(v, rest) \<in> set (two_digits (\<lambda>x. x \<le> 5) (\<lambda>y. True) s)
      \<or> (v, rest) \<in> set (one_digit (\<lambda>x. True) s)"
    unfolding DM by (simp only: alternatives.simps set_append Un_iff)
  then have "\<exists>pre. s = pre @ rest \<and> length pre \<le> 2 + blanks pre"
    by (elim disjE) (erule two_digits_short one_digit_short)+
  then show ?thesis unfolding DM by (simp only: width.simps)
next
  case DS
  from assms have "(v, rest) \<in> set (two_digits (\<lambda>x. x = 6) (\<lambda>y. y \<le> 1) s)
      \<or> (v, rest) \<in> set (two_digits (\<lambda>x. x \<le> 5) (\<lambda>y. True) s)
      \<or> (v, rest) \<in> set (one_digit (\<lambda>x. True) s)"
    unfolding DS by (simp only: alternatives.simps set_append Un_iff)
  then have "\<exists>pre. s = pre @ rest \<and> length pre \<le> 2 + blanks pre"
    by (elim disjE) (erule two_digits_short one_digit_short)+
  then show ?thesis unfolding DS by (simp only: width.simps)
qed

lemma first_some_Some: "first_some xs = Some y \<Longrightarrow> Some y \<in> set xs"
  by (induction xs rule: first_some.induct) auto

lemma regex_match_consumed:
  "regex_match fs s d = Some (d', rest)
     \<Longrightarrow> \<exists>pre. s = pre @ rest \<and> length pre \<le> sum_list (map width fs) + blanks pre"
proof (induction fs arbitrary: s d)
  case Nil
  then show ?case by (simp add: blanks_def)
next
  case (Cons f fs)
  from Cons.prems
  have "Some (d', rest) \<in> set (map (\<lambda>(v, r). regex_match fs r (set_field f v d))
            (alternatives f s))"
    by (intro first_some_Some) simp
  then obtain v r where alt: "(v, r) \<in> set (alternatives f s)"
    and rec: "regex_match fs r (set_field f v d) = Some (d', rest)"
    by (auto simp del: alternatives.simps)
  from alternatives_consumed [OF alt] obtain p1
    where p1: "s = p1 @ r" "length p1 \<le> width f + blanks p1" by blast
  from Cons.IH [OF rec] obtain p2
    where p2: "r = p2 @ rest" "length p2 \<le> sum_list (map width fs) + blanks p2" by blast
  from p1 p2 have "s = (p1 @ p2) @ rest
      \<and> length (p1 @ p2) \<le> sum_list (map width (f # fs)) + blanks (p1 @ p2)"
    by (simp add: blanks_def)
  then show ?case by blast
qed

lemma digit_char_visible: "\<not> is_space (digit_char n)"
proof -
  have "\<forall>c \<in> set ''0123456789''. \<not> is_space c"
    by (simp add: is_space_def)
  moreover have "''0123456789'' ! (n mod 10) \<in> set ''0123456789''"
    by (rule nth_mem) simp
  ultimately show ?thesis
    unfolding digit_char_def by blast
qed

lemma separators:
  "is_space CHR '' ''" "\<not> is_space CHR ''-''" "\<not> is_space CHR '':''"
  by (simp_all add: is_space_def)

lemma written_date_shape:
  "length (strftime_YmdHMS t) = 19" "blanks (strftime_YmdHMS t) = 1"
  by (simp_all add: strftime_YmdHMS_def strftime_Ymd_def strftime_Ym_def pad2_def pad4_def
        blanks_def digit_char_visible separators)

lemma written_rows_are_not_read:
  "strptime (row_date (logged_row t username url status err message)) FMT_HM = None"
proof (cases "regex_match FMT_HM (strftime_YmdHMS t) strptime_defaults")
  case None
  then show ?thesis by (simp add: strptime_def logged_row_def)
next
  case (Some res)
  obtain d rest where res: "res = (d, rest)" by (cases res)
  from regex_match_consumed [OF Some [unfolded res]] obtain pre
    where pre: "strftime_YmdHMS t = pre @ rest"
      "length pre \<le> sum_list (map width FMT_HM) + blanks pre" by blast
  have "blanks pre \<le> blanks (strftime_YmdHMS t)"
    unfolding pre(1) by (simp add: blanks_def)
  with pre(2) have "length pre \<le> 16"
    by (simp add: FMT_HM_def written_date_shape)
  with pre(1) written_date_shape(1) [of t] have "rest \<noteq> []"
    by auto
  with Some res show ?thesis
    by (simp add: strptime_def logged_row_def)
qed

text \<open>
  Whatever the clock shows, the date \<open>log_sending_result\<close> writes has nineteen characters
  and one blank, and the format of \<open>load_sent_history\<close> matches sixteen characters at
  most: no row the program writes is ever read back.
\<close>

lemma load_sent_history_skips_written_rows:
  assumes "minus_days t (sent_history_reset_days cfg) = Some reset_date"
    and "\<forall>r \<in> set rows. \<exists>t'. row_date r = strftime_YmdHMS t'"
  shows "load_sent_history cfg t (Some rows) sent = Some (sent, (INFO, LoadedHistory (card sent)))"
proof -
  have unread: "\<And>r. r \<in> set rows \<Longrightarrow> strptime (row_date r) FMT_HM = None"
  proof -
    fix r assume "r \<in> set rows"
    with assms(2) obtain t' where "row_date r = strftime_YmdHMS t'" by blast
    with written_rows_are_not_read [of t'] show "strptime (row_date r) FMT_HM = None"
      by (simp add: logged_row_def)
  qed
  have "fold (\<lambda>r acc.
          (case strptime (row_date r) FMT_HM of
             None \<Rightarrow> acc
           | Some send_date \<Rightarrow>
               (if dt_less reset_date send_date \<and> row_status r = ''Success''
                then insert (row_username r) acc else acc))) rows sent = sent"
    using unread by (induction rows arbitrary: sent) simp_all
  with assms(1) show ?thesis
    by (simp add: load_sent_history_def Let_def)
qed

text \<open>
  C1. A Success row inside the window of \<open>sent_history_reset_days\<close> days excludes its user
  from the candidates of a new campaign. In the code \<open>log_sending_result\<close> writes dates
  with seconds and \<open>load_sent_history\<close> reads them in a format without seconds, so the
  row raises \<open>ValueError\<close> and is skipped: with a window of 90 days that starts on
  2024-03-17 at 12:00:00, the Success row written for \<open>@alice\<close> at 12:00:01 of that day
  leaves \<open>sent_users\<close> empty, and the filter keeps \<open>@alice\<close> as a new candidate.
\<close>

theorem success_inside_window_not_excluded:
  "minus_days noon (sent_history_reset_days scenario_config) = Some (at_time 2024 3 17 12 0 0)
   \<and> row_date earlier_success = ''2024-03-17 12:00:01''
   \<and> row_status earlier_success = ''Success''
   \<and> row_username earlier_success = ''@alice''
   \<and> strptime (row_date earlier_success) FMT_HM = None
   \<and> map_option (\<lambda>(st, lines). (log_file st, sent_users st,
          filter_users st [(''@alice'', ''https://x.com/alice'')]))
        (initialise scenario_config revisit_env)
      = Some ([earlier_success], {}, [(''@alice'', ''https://x.com/alice'')])"
proof -
  have w: "minus_days noon 90 = Some (at_time 2024 3 17 12 0 0)"
    by (rule noon_window)
  have d: "row_date earlier_success = ''2024-03-17 12:00:01''"
    by (simp add: earlier_success_def logged_row_def date_defs)
  have p: "strptime ''2024-03-17 12:00:01'' FMT_HM = None"
    by (simp add: strptime_def FMT_HM_def strptime_defaults_def digit_of_def is_space_def)
  have i: "initialise scenario_config revisit_env
     = Some (fresh_sender\<lparr>ticks := 2, log_file := [earlier_success]\<rparr>,
             [(INFO, LoadedHistory 0), (INFO, LoadedBlacklist 0)])"
    by (simp add: initialise_def revisit_env_def scenario_env_fields now_def
          load_sent_history_def load_blacklist_def scenario_config_def fresh_sender_def
          w d p Let_def)
  from w d p i show ?thesis
    by (simp add: scenario_config_def filter_users_def fresh_sender_def earlier_success_def
          logged_row_def)
qed

section \<open>One Success row for each user in a run\<close>

text \<open>
  C2. No user gets two Success rows in one run, also when the user was found under two
  addresses. In the code the candidates are pairs of a user name and an address, and the
  send loop never looks into \<open>sent_users\<close>, to which it adds every user it has reached:
  when the search page links to \<open>twitter.com/alice\<close> and to \<open>x.com/alice\<close>, the run
  writes two Success rows for \<open>@alice\<close>.
\<close>

theorem same_user_sent_twice:
  "map row_username
     (rows_written (main scenario_config (scenario_env noon two_addresses nobody_fails)))
     = [''@alice'', ''@alice'']
   \<and> map row_status
     (rows_written (main scenario_config (scenario_env noon two_addresses nobody_fails)))
     = [''Success'', ''Success'']
   \<and> map row_url
     (rows_written (main scenario_config (scenario_env noon two_addresses nobody_fails)))
     = [''https://twitter.com/alice'', ''https://x.com/alice'']"
  by (simp add: main_two rows_written_def logged_row_def fresh_sender_def)

section \<open>The daily cap on five candidates\<close>

text \<open>
  C3, as the specification has it: with a cap of 3 and five candidates of which the
  third fails and the others succeed, the run writes three Success rows and one Failed
  row. The run does not: three Success rows and one Failed row are four rows, and the
  loop over a list cut to three targets writes three rows at most, whatever the order of
  the list. With the set enumerated in the order of discovery it writes two Success rows
  and one Failed row.
\<close>

theorem cap_three_of_five_counterexample:
  "\<not> (length (rows_with_status ''Success''
          (rows_written (main scenario_config (scenario_env noon five_candidates third_fails))))
        = 3
      \<and> length (rows_with_status ''Failed''
          (rows_written (main scenario_config (scenario_env noon five_candidates third_fails))))
        = 1)"
  by (simp add: main_five rows_written_def rows_with_status_def logged_row_def fresh_sender_def)

text \<open>
  C3, amended. Call the five candidates 1 to 5 in the order in which \<open>list(target_users)\<close>
  enumerates them. With a cap of 3, no send counted yet and no blocked hour met, where
  the backend reports Success for candidates 1 and 2 and a failure for candidate 3, the
  loop tries the first three candidates only, because the list is cut to the cap before
  the loop starts: it writes a Success row for candidate 1, a Success row for candidate 2
  and a Failed row for candidate 3 and no other row, so two Success rows and one Failed
  row; it counts two sends, and it opens the addresses of these three candidates and no
  other, whatever the backend would report for candidates 4 and 5.
\<close>

theorem cap_three_of_five:
  assumes "max_messages_per_day cfg = 3"
    and "sent_count st = 0"
    and "\<forall>k. is_allowed_time cfg (clock e k)"
    and "enumeration e target_users = [(u1, a1), (u2, a2), (u3, a3), (u4, a4), (u5, a5)]"
    and "send_dm_to_user e u1 a1 message_text = (True, r1)"
    and "send_dm_to_user e u2 a2 message_text = (True, r2)"
    and "send_dm_to_user e u3 a3 message_text = (False, r3)"
  shows "log_file (send_all cfg e message_text target_users st)
           = log_file st
             @ [logged_row (clock e (ticks st + 1)) u1 a1 ''Success'' r1 message_text,
                logged_row (clock e (ticks st + 3)) u2 a2 ''Success'' r2 message_text,
                logged_row (clock e (ticks st + 5)) u3 a3 ''Failed'' r3 message_text]
       \<and> length (rows_with_status ''Success''
             (drop (length (log_file st)) (log_file (send_all cfg e message_text target_users st))))
           = 2
       \<and> length (rows_with_status ''Failed''
             (drop (length (log_file st)) (log_file (send_all cfg e message_text target_users st))))
           = 1
       \<and> sent_count (send_all cfg e message_text target_users st) = 2
       \<and> visited (send_all cfg e message_text target_users st) = visited st @ [a1, a2, a3]"
proof -
  from assms(3) have ok: "\<And>k. is_allowed_time cfg (clock e k)"
    by blast
  have cut: "py_take 3 [(u1, a1), (u2, a2), (u3, a3), (u4, a4), (u5, a5)]
      = [(u1, a1), (u2, a2), (u3, a3)]"
    by (simp add: py_take_def)
  have loop: "send_all cfg e message_text target_users st
      = st\<lparr>ticks := ticks st + 6,
           visited := visited st @ [a1, a2, a3],
           log_file := log_file st
             @ [logged_row (clock e (ticks st + 1)) u1 a1 ''Success'' r1 message_text,
                logged_row (clock e (ticks st + 3)) u2 a2 ''Success'' r2 message_text,
                logged_row (clock e (ticks st + 5)) u3 a3 ''Failed'' r3 message_text],
           sent_count := 2,
           sent_users := insert u2 (insert u1 (sent_users st))\<rparr>"
  proof -
    have n: "ticks st + 3 = Suc (Suc (Suc (ticks st)))"
      "ticks st + 5 = Suc (Suc (Suc (Suc (Suc (ticks st)))))"
      "ticks st + 6 = Suc (Suc (Suc (Suc (Suc (Suc (ticks st))))))"
      by simp_all
    show ?thesis
      by (simp add: send_all_def assms(1,2,4-7) cut send_iteration_def now_def ok
            driver_get_def log_sending_result_def Let_def n)
  qed
  show ?thesis
    unfolding loop by (simp add: rows_with_status_def logged_row_def)
qed

theorem cap_three_of_five_witness:
  "enumeration (scenario_env noon five_candidates third_fails) five_targets
     = [(''@u1'', ''https://x.com/u1''), (''@u2'', ''https://x.com/u2''),
        (''@u3'', ''https://x.com/u3''), (''@u4'', ''https://x.com/u4''),
        (''@u5'', ''https://x.com/u5'')]
   \<and> map row_username
       (log_file (send_all scenario_config (scenario_env noon five_candidates third_fails)
          ''hi'' five_targets fresh_sender))
     = [''@u1'', ''@u2'', ''@u3'']
   \<and> map row_status
       (log_file (send_all scenario_config (scenario_env noon five_candidates third_fails)
          ''hi'' five_targets fresh_sender))
     = [''Success'', ''Success'', ''Failed'']
   \<and> sent_count (send_all scenario_config (scenario_env noon five_candidates third_fails)
          ''hi'' five_targets fresh_sender)
     = 2
   \<and> visited (send_all scenario_config (scenario_env noon five_candidates third_fails)
          ''hi'' five_targets fresh_sender)
     = [''https://x.com/u1'', ''https://x.com/u2'', ''https://x.com/u3'']"
proof -
  have cap: "max_messages_per_day scenario_config = 3"
    by (simp add: scenario_config_fields)
  have fresh: "sent_count fresh_sender = 0" "log_file fresh_sender = []"
    "visited fresh_sender = []"
    by (simp_all add: fresh_sender_def)
  have hours: "\<forall>k. is_allowed_time scenario_config
      (clock (scenario_env noon five_candidates third_fails) k)"
    by (simp add: scenario_env_fields noon_allowed)
  have order: "enumeration (scenario_env noon five_candidates third_fails) five_targets
     = [(''@u1'', ''https://x.com/u1''), (''@u2'', ''https://x.com/u2''),
        (''@u3'', ''https://x.com/u3''), (''@u4'', ''https://x.com/u4''),
        (''@u5'', ''https://x.com/u5'')]"
    by (simp add: scenario_env_fields five_targets_def)
  have s1: "send_dm_to_user (scenario_env noon five_candidates third_fails)
      ''@u1'' ''https://x.com/u1'' ''hi'' = (True, ''Success'')"
    by (simp add: scenario_env_fields third_fails_def)
  have s2: "send_dm_to_user (scenario_env noon five_candidates third_fails)
      ''@u2'' ''https://x.com/u2'' ''hi'' = (True, ''Success'')"
    by (simp add: scenario_env_fields third_fails_def)
  have s3: "send_dm_to_user (scenario_env noon five_candidates third_fails)
      ''@u3'' ''https://x.com/u3'' ''hi'' = (False, ''Message button not found'')"
    by (simp add: scenario_env_fields third_fails_def)
  from cap_three_of_five [OF cap fresh(1) hours order s1 s2 s3] order show ?thesis
    by (simp add: fresh logged_row_def)
qed

section \<open>A start inside the blocked hours\<close>

text \<open>
  C5. When the hour of the start is blocked, the run ends before any discovery, writes no
  row and sends no error notification. In the code the \<open>finally\<close> block of \<open>run\<close> still
  calls \<open>send_daily_report\<close>, whose success rate divides by the number of today's rows:
  with blocked hours 0 to 6, a start at 2 o'clock and no row of today in the log, no
  address is opened and no row is written, but the division by zero is caught and
  reported to Slack as an error.
\<close>

theorem blocked_start_sends_error_notification:
  "\<not> is_allowed_time scenario_config night
   \<and> rows_written (main scenario_config (scenario_env night five_candidates nobody_fails)) = []
   \<and> addresses_visited (main scenario_config (scenario_env night five_candidates nobody_fails))
       = []
   \<and> notifications_sent (main scenario_config (scenario_env night five_candidates nobody_fails))
       = [DailyReportError ''division by zero'']"
proof -
  have blocked: "\<not> is_allowed_time scenario_config night"
    by (simp add: is_allowed_time_def scenario_config_def night_def at_time_def)
  then show ?thesis
    by (simp add: main_night rows_written_def addresses_visited_def notifications_sent_def
          fresh_sender_def)
qed

section \<open>The send loop and the daily cap\<close>

lemma send_iteration_break:
  assumes "send_iteration cfg e message_text tgt st = Inl st'"
  shows "sent_count st' = sent_count st \<and> log_file st' = log_file st \<and> visited st' = visited st"
  using assms
  by (cases tgt)
     (auto simp: send_iteration_def now_def Let_def driver_get_def log_sending_result_def
           split: if_splits prod.splits)

lemma send_iteration_end:
  assumes "send_iteration cfg e message_text tgt st = Inr st'"
  shows "sent_count st < max_messages_per_day cfg
       \<and> (\<exists>r. log_file st' = log_file st @ [r]
              \<and> (row_status r = ''Success'' \<or> row_status r = ''Failed'')
              \<and> row_username r = fst tgt \<and> row_url r = snd tgt
              \<and> sent_count st' = sent_count st + (if row_status r = ''Success'' then 1 else 0))"
  using assms
  by (cases tgt)
     (auto simp: send_iteration_def now_def Let_def driver_get_def log_sending_result_def
                 logged_row_def
           split: if_splits prod.splits)

lemma send_iteration_at_cap:
  "max_messages_per_day cfg \<le> sent_count st \<Longrightarrow> send_iteration cfg e message_text tgt st = Inl st"
  by (cases tgt) (simp add: send_iteration_def)

lemma iteration_ends_within_cap:
  "s \<in> set (iteration_ends cfg e message_text targets st)
     \<Longrightarrow> sent_count s \<le> max_messages_per_day cfg"
proof (induction targets arbitrary: st)
  case Nil
  then show ?case by simp
next
  case (Cons tgt targets)
  show ?case
  proof (cases "send_iteration cfg e message_text tgt st")
    case (Inl st')
    with Cons.prems show ?thesis by simp
  next
    case (Inr st')
    from send_iteration_end [OF Inr] have "sent_count st' \<le> max_messages_per_day cfg"
      by (auto split: if_splits)
    with Cons.prems Cons.IH [of st'] Inr show ?thesis
      by auto
  qed
qed

lemma send_loop_last_iteration:
  "sent_count (send_loop cfg e message_text targets st)
     = sent_count (last (st # iteration_ends cfg e message_text targets st))"
proof (induction targets arbitrary: st)
  case Nil
  show ?case by simp
next
  case (Cons tgt targets)
  show ?case
  proof (cases "send_iteration cfg e message_text tgt st")
    case (Inl st')
    with send_iteration_break [OF Inl] show ?thesis by simp
  next
    case (Inr st')
    with Cons.IH [of st'] show ?thesis by simp
  qed
qed

text \<open>The loop writes at most one row for each target it is given.\<close>

lemma send_loop_rows_bounded:
  "length (log_file (send_loop cfg e message_text targets st))
     \<le> length (log_file st) + length targets"
proof (induction targets arbitrary: st)
  case Nil
  show ?case by simp
next
  case (Cons tgt targets)
  show ?case
  proof (cases "send_iteration cfg e message_text tgt st")
    case (Inl st')
    with send_iteration_break [OF Inl] show ?thesis by simp
  next
    case (Inr st')
    from send_iteration_end [OF Inr] have "length (log_file st') = length (log_file st) + 1"
      by auto
    with Cons.IH [of st'] Inr show ?thesis by simp
  qed
qed

lemma send_loop_rows_within_cap:
  assumes "0 \<le> max_messages_per_day cfg"
  shows "int (length (log_file (send_loop cfg e message_text
            (py_take (max_messages_per_day cfg) targets) st)))
         \<le> int (length (log_file st)) + max_messages_per_day cfg"
proof -
  from assms have "int (length (py_take (max_messages_per_day cfg) targets))
      \<le> max_messages_per_day cfg"
    by (simp add: py_take_def)
  with send_loop_rows_bounded [of cfg e message_text
      "py_take (max_messages_per_day cfg) targets" st]
  show ?thesis by linarith
qed

text \<open>
  C4. At the end of every iteration of the send loop the number of sends is at most
  \<open>max_messages_per_day\<close>, and the count the loop returns is that of its last finished
  iteration; an iteration that reaches its end writes one row and adds one to the count
  exactly when that row is a Success row; an iteration left by \<open>break\<close> changes neither the
  count nor the log; and a loop entered with the cap reached tries no target at all.
\<close>

theorem send_loop_within_daily_cap:
  "(\<forall>s \<in> set (iteration_ends cfg e message_text targets st).
       sent_count s \<le> max_messages_per_day cfg)
   \<and> sent_count (send_loop cfg e message_text targets st)
       = sent_count (last (st # iteration_ends cfg e message_text targets st))
   \<and> (\<forall>tgt s s'. send_iteration cfg e message_text tgt s = Inr s'
         \<longrightarrow> (\<exists>r. log_file s' = log_file s @ [r]
                \<and> sent_count s' = sent_count s + (if row_status r = ''Success'' then 1 else 0)))
   \<and> (\<forall>tgt s s'. send_iteration cfg e message_text tgt s = Inl s'
         \<longrightarrow> sent_count s' = sent_count s \<and> log_file s' = log_file s)
   \<and> (max_messages_per_day cfg \<le> sent_count st
         \<longrightarrow> send_loop cfg e message_text targets st = st)"
proof -
  have stop: "max_messages_per_day cfg \<le> sent_count st
      \<Longrightarrow> send_loop cfg e message_text targets st = st"
    by (cases targets) (simp_all add: send_iteration_at_cap)
  have step: "\<And>tgt s s'. send_iteration cfg e message_text tgt s = Inr s'
      \<Longrightarrow> \<exists>r. log_file s' = log_file s @ [r]
            \<and> sent_count s' = sent_count s + (if row_status r = ''Success'' then 1 else 0)"
    using send_iteration_end by blast
  from iteration_ends_within_cap send_loop_last_iteration step send_iteration_break stop
  show ?thesis by blast
qed

theorem send_loop_within_daily_cap_witness:
  "map sent_count
     (iteration_ends scenario_config (scenario_env noon five_candidates third_fails) ''hi''
        (take 3 five_targets)
        (fresh_sender\<lparr>ticks := 3, driver := Running, visited := [search_url ''vtuber'']\<rparr>))
     = [1, 2, 2]
   \<and> list_all (\<lambda>s. sent_count s \<le> 3)
       (iteration_ends scenario_config (scenario_env noon five_candidates third_fails) ''hi''
          (take 3 five_targets)
          (fresh_sender\<lparr>ticks := 3, driver := Running, visited := [search_url ''vtuber'']\<rparr>))
   \<and> send_loop scenario_config (scenario_env noon five_candidates third_fails) ''hi''
         five_targets (fresh_sender\<lparr>sent_count := 3\<rparr>)
       = fresh_sender\<lparr>sent_count := 3\<rparr>"
proof -
  have reached: "max_messages_per_day scenario_config \<le> sent_count (fresh_sender\<lparr>sent_count := 3\<rparr>)"
    by (simp add: scenario_config_fields)
  from send_loop_within_daily_cap [of scenario_config
      "scenario_env noon five_candidates third_fails" "''hi''" "take 3 five_targets"
      "fresh_sender\<lparr>ticks := 3, driver := Running, visited := [search_url ''vtuber'']\<rparr>"]
  have "\<forall>s \<in> set (iteration_ends scenario_config
          (scenario_env noon five_candidates third_fails) ''hi'' (take 3 five_targets)
          (fresh_sender\<lparr>ticks := 3, driver := Running, visited := [search_url ''vtuber'']\<rparr>)).
        sent_count s \<le> max_messages_per_day scenario_config"
    by blast
  then have "list_all (\<lambda>s. sent_count s \<le> 3)
       (iteration_ends scenario_config (scenario_env noon five_candidates third_fails) ''hi''
          (take 3 five_targets)
          (fresh_sender\<lparr>ticks := 3, driver := Running, visited := [search_url ''vtuber'']\<rparr>))"
    by (simp add: list_all_iff scenario_config_fields)
  moreover from send_loop_within_daily_cap [of scenario_config
      "scenario_env noon five_candidates third_fails" "''hi''" five_targets
      "fresh_sender\<lparr>sent_count := 3\<rparr>"] reached
  have "send_loop scenario_config (scenario_env noon five_candidates third_fails) ''hi''
         five_targets (fresh_sender\<lparr>sent_count := 3\<rparr>)
       = fresh_sender\<lparr>sent_count := 3\<rparr>"
    by blast
  ultimately show ?thesis
    using ends_five by simp
qed

section \<open>When scrolling stops\<close>

lemma extract_growing:
  "extract_usernames_from_page (growing_page 0) = [(''@a'', ''https://x.com/a'')]"
  "extract_usernames_from_page (growing_page (Suc 0))
     = [(''@a'', ''https://x.com/a''), (''@b'', ''https://x.com/b'')]"
  "extract_usernames_from_page (growing_page (Suc (Suc 0)))
     = [(''@a'', ''https://x.com/a''), (''@b'', ''https://x.com/b''), (''@c'', ''https://x.com/c'')]"
  by (simp_all add: extract_usernames_from_page_def growing_page_def
        username_of_href_def startswith_def set_add_def Let_def)

lemma growing_height:
  "height_before (growing_page i) = 1000" "height_after (growing_page i) = 1000"
  by (simp_all add: growing_page_def)

lemma scroll_growing:
  "scroll_and_collect growing_page 5
     = Inr ([(''@a'', ''https://x.com/a''), (''@b'', ''https://x.com/b'')], 2)"
  by (simp add: scroll_and_collect_def scroll_loop_step extract_growing growing_height
        set_update_def set_add_def Let_def)

lemma legacy_loop_step:
  "0 < k \<Longrightarrow> legacy_scroll_loop page k i last_height all_usernames =
     (case legacy_extract_usernames_from_page (page i) of
        None \<Rightarrow> None
      | Some current_users \<Rightarrow>
          (let all_usernames = set_update all_usernames current_users;
               new_height = height_after (page i)
           in if new_height = last_height then Some (all_usernames, i + 1)
              else legacy_scroll_loop page (k - 1) (i + 1) new_height all_usernames))"
  by (cases k) (simp_all add: Let_def split: option.splits)

lemma legacy_growing:
  "legacy_scroll_and_collect growing_page 5 = Some ([(''@a'', ''https://x.com/a'')], 1)"
proof -
  have ex: "legacy_extract_usernames_from_page (growing_page 0)
      = Some [(''@a'', ''https://x.com/a'')]"
    by (simp add: legacy_extract_usernames_from_page_def growing_page_def startswith_def
          set_add_def)
  show ?thesis
    by (simp add: legacy_scroll_and_collect_def legacy_loop_step ex growing_height
        set_update_def set_add_def)
qed

text \<open>
  C6, as the specification has it: scrolling stops after the second scroll in a row that
  adds no candidate, or at the configured maximum, and not earlier. On a page of fixed
  height that shows one, two and then three users, \<open>XDMSender.scroll_and_collect\<close> with a
  maximum of 5 stops after two scrolls, with the candidate count still growing, and the
  \<open>scroll_and_collect\<close> of the first script stops after one scroll.
\<close>

theorem scroll_stops_counterexample:
  "scroll_and_collect growing_page 5
     = Inr ([(''@a'', ''https://x.com/a''), (''@b'', ''https://x.com/b'')], 2)
   \<and> length (extract_usernames_from_page (growing_page 0)) = 1
   \<and> length (extract_usernames_from_page (growing_page 1)) = 2
   \<and> length (extract_usernames_from_page (growing_page 2)) = 3
   \<and> legacy_scroll_and_collect growing_page 5 = Some ([(''@a'', ''https://x.com/a'')], 1)"
  by (simp add: scroll_growing extract_growing legacy_growing numeral_2_eq_2)

lemma no_double_before_Suc:
  assumes "no_double_before page scroll"
    and "0 < scroll \<Longrightarrow> \<not> (no_growth page (scroll - 1) \<and> no_growth page scroll)"
  shows "no_double_before page (Suc scroll)"
  unfolding no_double_before_def
proof (intro allI impI)
  fix i assume "i + 1 < Suc scroll"
  then consider "i + 1 < scroll" | "i + 1 = scroll" by linarith
  then show "\<not> (no_growth page i \<and> no_growth page (i + 1))"
  proof cases
    case 1
    with assms(1) show ?thesis by (simp add: no_double_before_def)
  next
    case 2
    with assms(2) show ?thesis by auto
  qed
qed

lemma scroll_loop_stops:
  assumes "scroll_loop page k scroll stable_count all_usernames = (users, n)"
    and "no_double_before page scroll"
    and "stable_count \<le> 1"
    and "stable_count = 1 \<Longrightarrow> 0 < scroll \<and> no_growth page (scroll - 1)"
    and "stable_count = 0 \<Longrightarrow> 0 < scroll \<Longrightarrow> \<not> no_growth page (scroll - 1)"
  shows "scroll \<le> n \<and> n \<le> scroll + k \<and> (0 < k \<longrightarrow> scroll < n)
       \<and> (n < scroll + k \<longrightarrow> 2 \<le> n \<and> no_growth page (n - 2) \<and> no_growth page (n - 1))
       \<and> no_double_before page (n - 1)"
  using assms
proof (induction k arbitrary: scroll stable_count all_usernames)
  case 0
  then show ?case by (auto simp: no_double_before_def)
next
  case (Suc k)
  let ?all = "set_update all_usernames (extract_usernames_from_page (page scroll))"
  show ?case
  proof (cases "no_growth page scroll")
    case True
    note ng = this
    show ?thesis
    proof (cases "stable_count = 1")
      case True
      with ng Suc.prems(1) have n: "n = scroll + 1"
        by (simp add: Let_def no_growth_def)
      from True Suc.prems(4) have prev: "0 < scroll" "no_growth page (scroll - 1)"
        by simp_all
      from Suc.prems(2) have "no_double_before page (n - 1)"
        unfolding n by simp
      with n prev ng show ?thesis
        by (auto simp: numeral_2_eq_2)
    next
      case False
      with Suc.prems(3) have sc: "stable_count = 0" by simp
      with ng Suc.prems(1)
      have rec: "scroll_loop page k (scroll + 1) 1 ?all = (users, n)"
        by (simp add: Let_def no_growth_def)
      from sc Suc.prems(5) have "0 < scroll \<Longrightarrow> \<not> no_growth page (scroll - 1)"
        by simp
      with Suc.prems(2) have ndb: "no_double_before page (scroll + 1)"
        using no_double_before_Suc [of page scroll] by simp
      from Suc.IH [OF rec ndb] ng show ?thesis
        by auto
    qed
  next
    case False
    with Suc.prems(1)
    have rec: "scroll_loop page k (scroll + 1) 0 ?all = (users, n)"
      by (simp add: Let_def no_growth_def)
    from False Suc.prems(2) have ndb: "no_double_before page (scroll + 1)"
      using no_double_before_Suc [of page scroll] by simp
    from Suc.IH [OF rec ndb] False show ?thesis
      by auto
  qed
qed

text \<open>
  C6, amended. Growth is growth of the height of the document. With a maximum of at least
  one scroll, \<open>XDMSender.scroll_and_collect\<close> returns after \<open>n\<close> scrolls, where \<open>n\<close> is at
  most the maximum; if \<open>n\<close> is below the maximum, the last two scrolls both left the
  height unchanged; and no two scrolls in a row before the last one did.
\<close>

theorem scroll_and_collect_stops_after_two_stable_scrolls:
  assumes "0 < max_scrolls"
  shows "\<exists>users n. scroll_and_collect page max_scrolls = Inr (users, n)
           \<and> 1 \<le> n \<and> int n \<le> max_scrolls
           \<and> (int n < max_scrolls
                \<longrightarrow> 2 \<le> n \<and> no_growth page (n - 2) \<and> no_growth page (n - 1))
           \<and> (\<forall>i. i + 2 < n \<longrightarrow> \<not> (no_growth page i \<and> no_growth page (i + 1)))"
proof -
  obtain users n where res: "scroll_loop page (nat max_scrolls) 0 0 [] = (users, n)"
    by (cases "scroll_loop page (nat max_scrolls) 0 0 []") auto
  have start: "no_double_before page 0"
    by (simp add: no_double_before_def)
  from scroll_loop_stops [OF res start] assms
  have "n \<le> nat max_scrolls" "0 < n"
    "n < nat max_scrolls \<longrightarrow> 2 \<le> n \<and> no_growth page (n - 2) \<and> no_growth page (n - 1)"
    "no_double_before page (n - 1)"
    by auto
  moreover from assms res have "scroll_and_collect page max_scrolls = Inr (users, n)"
    by (simp add: scroll_and_collect_def)
  ultimately show ?thesis
    using assms by (auto simp: no_double_before_def)
qed

lemma settling_heights:
  "height_before (settling_page 0) = 1000" "height_after (settling_page 0) = 1500"
  "height_before (settling_page (Suc 0)) = 1500" "height_after (settling_page (Suc 0)) = 2000"
  "height_before (settling_page (Suc (Suc 0))) = 2000"
  "height_after (settling_page (Suc (Suc 0))) = 2000"
  "height_before (settling_page (Suc (Suc (Suc 0)))) = 2000"
  "height_after (settling_page (Suc (Suc (Suc 0)))) = 2000"
  by (simp_all add: settling_page_def)

lemma extract_settling:
  "extract_usernames_from_page (settling_page i) = [(''@a'', ''https://x.com/a'')]"
  by (simp add: extract_usernames_from_page_def settling_page_def
        username_of_href_def startswith_def set_add_def Let_def)

lemma scroll_settling:
  "scroll_and_collect settling_page 5 = Inr ([(''@a'', ''https://x.com/a'')], 4)"
  by (simp add: scroll_and_collect_def scroll_loop_step extract_settling settling_heights
        set_update_def set_add_def Let_def)

theorem scroll_and_collect_stops_after_two_stable_scrolls_witness:
  "(0::int) < 5
   \<and> scroll_and_collect settling_page 5 = Inr ([(''@a'', ''https://x.com/a'')], 4)
   \<and> \<not> no_growth settling_page 0 \<and> \<not> no_growth settling_page 1
   \<and> no_growth settling_page 2 \<and> no_growth settling_page 3"
proof -
  have pos: "(0::int) < 5" by simp
  from scroll_and_collect_stops_after_two_stable_scrolls [OF pos, of settling_page]
  have "no_growth settling_page (4 - 2) \<and> no_growth settling_page (4 - 1)"
    by (auto simp: scroll_settling)
  then have "no_growth settling_page 2 \<and> no_growth settling_page 3"
    by simp
  moreover have "\<not> no_growth settling_page 0 \<and> \<not> no_growth settling_page 1"
    by (simp add: no_growth_def settling_page_def)
  ultimately show ?thesis
    using scroll_settling by simp
qed

section \<open>The statistics of a window\<close>

lemma count_row_outside: "\<not> inside_window c r \<Longrightarrow> count_row c r s = s"
  by (auto simp: count_row_def inside_window_def split: option.splits)

lemma count_row_inside:
  assumes "inside_window c r"
  shows "total_attempts (count_row c r s) = total_attempts s + 1"
    and "successful_sends (count_row c r s) =
           successful_sends s + (if row_status r = ''Success'' then 1 else 0)"
    and "failed_sends (count_row c r s) =
           failed_sends s + (if row_status r = ''Success'' then 0 else 1)"
    and "success_rate (count_row c r s) = success_rate s"
  using assms by (auto simp: count_row_def inside_window_def Let_def split: option.splits)

text \<open>The row loop, from any starting counters.\<close>

lemma fold_count_row:
  "total_attempts (fold (count_row c) rows s)
     = total_attempts s + successes_inside c rows + others_inside c rows
   \<and> successful_sends (fold (count_row c) rows s) = successful_sends s + successes_inside c rows
   \<and> failed_sends (fold (count_row c) rows s) = failed_sends s + others_inside c rows
   \<and> success_rate (fold (count_row c) rows s) = success_rate s"
proof (induction rows arbitrary: s)
  case Nil
  show ?case by (simp add: successes_inside_def others_inside_def)
next
  case (Cons r rows)
  show ?case
  proof (cases "inside_window c r")
    case True
    with Cons.IH [of "count_row c r s"] show ?thesis
      by (simp add: count_row_inside successes_inside_def others_inside_def)
  next
    case False
    with Cons.IH [of s] show ?thesis
      by (simp add: count_row_outside successes_inside_def others_inside_def)
  qed
qed

lemma others_are_failures:
  assumes "\<forall>r \<in> set rows. inside_window c r
             \<longrightarrow> row_status r = ''Success'' \<or> row_status r = ''Failed''"
  shows "others_inside c rows = failures_inside c rows"
proof -
  have "filter (\<lambda>r. inside_window c r \<and> row_status r \<noteq> ''Success'') rows
      = filter (\<lambda>r. inside_window c r \<and> row_status r = ''Failed'') rows"
    using assms by (intro filter_cong) auto
  then show ?thesis
    by (simp add: others_inside_def failures_inside_def)
qed

text \<open>
  C8. Let the window of \<open>days\<close> days before \<open>t\<close> start at \<open>cutoff\<close>, and let every row of
  the log inside the window be a Success or a Failed row, \<open>N\<close> of the first and \<open>M\<close> of the
  second kind. Then \<open>analyze_sending_statistics\<close> returns statistics with \<open>N + M\<close>
  attempts, \<open>N\<close> successful and \<open>M\<close> failed sends, and the success rate
  \<open>N / (N + M) * 100\<close>, or 0 when \<open>N + M = 0\<close>.
\<close>

theorem analyze_sending_statistics_totals:
  assumes "minus_days t days = Some cutoff"
    and "\<forall>r \<in> set rows. inside_window cutoff r
           \<longrightarrow> row_status r = ''Success'' \<or> row_status r = ''Failed''"
  shows "\<exists>s. analyze_sending_statistics t days (Some rows) = Some s
           \<and> total_attempts s = successes_inside cutoff rows + failures_inside cutoff rows
           \<and> successful_sends s = successes_inside cutoff rows
           \<and> failed_sends s = failures_inside cutoff rows
           \<and> success_rate s =
               (if successes_inside cutoff rows + failures_inside cutoff rows = 0 then 0
                else real (successes_inside cutoff rows)
                     / real (successes_inside cutoff rows + failures_inside cutoff rows) * 100)"
proof -
  let ?s = "fold (count_row cutoff) rows stats_init"
  have init: "total_attempts stats_init = 0" "successful_sends stats_init = 0"
    "failed_sends stats_init = 0" "success_rate stats_init = 0"
    by (simp_all add: stats_init_def)
  from fold_count_row [of cutoff rows stats_init] others_are_failures [OF assms(2)] init
  have counts: "total_attempts ?s = successes_inside cutoff rows + failures_inside cutoff rows"
    "successful_sends ?s = successes_inside cutoff rows"
    "failed_sends ?s = failures_inside cutoff rows"
    "success_rate ?s = 0"
    by simp_all
  show ?thesis
  proof (cases "total_attempts ?s > 0")
    case True
    with assms(1) counts show ?thesis
      by (simp add: analyze_sending_statistics_def Let_def)
  next
    case False
    with assms(1) counts show ?thesis
      by (simp add: analyze_sending_statistics_def Let_def)
  qed
qed

lemma week_window: "minus_days noon 7 = Some (at_time 2024 6 8 12 0 0)"
  by (simp add: noon_def date_defs Let_def)

lemma week_counts:
  "successes_inside (at_time 2024 6 8 12 0 0) week_rows = 1"
  "failures_inside (at_time 2024 6 8 12 0 0) week_rows = 1"
  by (simp_all add: successes_inside_def failures_inside_def week_rows_def inside_window_def
        logged_row_def date_defs is_space_def)

theorem analyze_sending_statistics_totals_witness:
  "minus_days noon 7 = Some (at_time 2024 6 8 12 0 0)
   \<and> successes_inside (at_time 2024 6 8 12 0 0) week_rows = 1
   \<and> failures_inside (at_time 2024 6 8 12 0 0) week_rows = 1
   \<and> (\<exists>s. analyze_sending_statistics noon 7 (Some week_rows) = Some s
          \<and> total_attempts s = 2 \<and> successful_sends s = 1 \<and> failed_sends s = 1
          \<and> success_rate s = 50)
   \<and> (\<exists>s. analyze_sending_statistics noon 7 (Some []) = Some s
          \<and> total_attempts s = 0 \<and> success_rate s = 0)"
proof -
  have known: "\<forall>r \<in> set week_rows. inside_window (at_time 2024 6 8 12 0 0) r
      \<longrightarrow> row_status r = ''Success'' \<or> row_status r = ''Failed''"
    by (simp add: week_rows_def logged_row_def)
  have none: "\<forall>r \<in> set []. inside_window (at_time 2024 6 8 12 0 0) r
      \<longrightarrow> row_status r = ''Success'' \<or> row_status r = ''Failed''"
    by simp
  have empty: "successes_inside (at_time 2024 6 8 12 0 0) [] = 0"
    "failures_inside (at_time 2024 6 8 12 0 0) [] = 0"
    by (simp_all add: successes_inside_def failures_inside_def)
  from analyze_sending_statistics_totals [OF week_window known]
  have full: "\<exists>s. analyze_sending_statistics noon 7 (Some week_rows) = Some s
          \<and> total_attempts s = 2 \<and> successful_sends s = 1 \<and> failed_sends s = 1
          \<and> success_rate s = 50"
    by (simp add: week_counts numeral_2_eq_2)
  from analyze_sending_statistics_totals [OF week_window none]
  have "\<exists>s. analyze_sending_statistics noon 7 (Some []) = Some s
          \<and> total_attempts s = 0 \<and> success_rate s = 0"
    by (auto simp: empty)
  with full week_window week_counts show ?thesis
    by simp
qed

section \<open>A blacklist that cannot be loaded\<close>

text \<open>The run never reads the spreadsheet: only the construction of the sender does.\<close>

lemma now_provider: "now (e\<lparr>blacklist_provider := x\<rparr>) st = now e st"
  by (simp add: now_def)

lemma search_loop_provider:
  "search_loop cfg (e\<lparr>blacklist_provider := x\<rparr>) ks all_users st
     = search_loop cfg e ks all_users st"
  by (induction ks arbitrary: all_users st)
     (simp_all add: Let_def split: option.splits sum.splits prod.splits)

lemma following_loop_provider:
  "following_loop (e\<lparr>blacklist_provider := x\<rparr>) ts following_users st
     = following_loop e ts following_users st"
proof (induction ts arbitrary: following_users st)
  case Nil
  show ?case by simp
next
  case (Cons t ts)
  then show ?case
    by (cases t) (simp add: Let_def split: option.splits sum.splits prod.splits)
qed

lemma collect_following_users_provider:
  "collect_following_users (e\<lparr>blacklist_provider := x\<rparr>) target_users st
     = collect_following_users e target_users st"
  by (simp add: collect_following_users_def following_loop_provider)

lemma collect_targets_provider:
  "collect_targets cfg (e\<lparr>blacklist_provider := x\<rparr>) st = collect_targets cfg e st"
  by (simp add: collect_targets_def search_users_by_keywords_def search_loop_provider
        collect_following_users_provider cong: if_cong)

lemma log_sending_result_provider:
  "log_sending_result (e\<lparr>blacklist_provider := x\<rparr>) username url status err message st
     = log_sending_result e username url status err message st"
  by (simp add: log_sending_result_def now_provider)

lemma send_iteration_provider:
  "send_iteration cfg (e\<lparr>blacklist_provider := x\<rparr>) message_text tgt st
     = send_iteration cfg e message_text tgt st"
  by (cases tgt)
     (simp add: send_iteration_def now_provider log_sending_result_provider cong: if_cong)

lemma send_loop_provider:
  "send_loop cfg (e\<lparr>blacklist_provider := x\<rparr>) message_text targets st
     = send_loop cfg e message_text targets st"
  by (induction targets arbitrary: st)
     (simp_all add: send_iteration_provider split: sum.splits)

lemma reports_provider:
  "send_daily_report (e\<lparr>blacklist_provider := x\<rparr>) st = send_daily_report e st"
  "send_monthly_report cfg (e\<lparr>blacklist_provider := x\<rparr>) st = send_monthly_report cfg e st"
  by (simp_all add: send_daily_report_def send_monthly_report_def now_provider)

lemma run_body_provider: "run_body cfg (e\<lparr>blacklist_provider := x\<rparr>) st = run_body cfg e st"
  by (simp add: run_body_def send_all_def now_provider collect_targets_provider
        send_loop_provider load_message_text_def Let_def
        split: prod.splits driver_start.splits)

lemma run_provider: "run cfg (e\<lparr>blacklist_provider := x\<rparr>) st = run cfg e st"
  by (simp add: run_def run_body_provider reports_provider)

text \<open>
  C9. When the spreadsheet raises, \<open>load_blacklist\<close> returns the empty set and logs a
  warning; a sender that could be constructed has an empty blacklist and that warning
  among its log lines; and the whole campaign, with its sends, rows and notifications,
  is the campaign of a spreadsheet that has no entry.
\<close>

theorem blacklist_failure_is_not_fatal:
  assumes "blacklist_provider e = Inl err"
  shows "load_blacklist (blacklist_provider e) = ({}, (WARNING, BlacklistLoadFailed err))
       \<and> (\<forall>st lines. initialise cfg e = Some (st, lines)
             \<longrightarrow> blacklist_urls st = {} \<and> (WARNING, BlacklistLoadFailed err) \<in> set lines)
       \<and> main cfg e = main cfg (e\<lparr>blacklist_provider := Inr []\<rparr>)"
proof -
  let ?e = "e\<lparr>blacklist_provider := Inr []\<rparr>"
  from assms
  have lb: "load_blacklist (blacklist_provider e) = ({}, (WARNING, BlacklistLoadFailed err))"
    by (simp add: load_blacklist_def)
  have lb': "load_blacklist (blacklist_provider ?e) = ({}, (INFO, LoadedBlacklist 0))"
    by (simp add: load_blacklist_def)
  have init: "\<And>st lines. initialise cfg e = Some (st, lines)
      \<Longrightarrow> blacklist_urls st = {} \<and> (WARNING, BlacklistLoadFailed err) \<in> set lines"
    by (auto simp: initialise_def lb now_def Let_def split: option.splits prod.splits)
  have same: "map_option fst (initialise cfg e) = map_option fst (initialise cfg ?e)"
    unfolding initialise_def lb lb'
    by (simp add: now_def Let_def split: option.splits prod.splits)
  have run_eq: "run cfg ?e = run cfg e"
    by (rule ext) (rule run_provider)
  have "main cfg e = map_option (run cfg e) (map_option fst (initialise cfg e))"
    by (simp add: main_def split: option.splits prod.splits)
  also have "\<dots> = map_option (run cfg ?e) (map_option fst (initialise cfg ?e))"
    by (simp only: same run_eq)
  also have "\<dots> = main cfg ?e"
    by (simp add: main_def split: option.splits prod.splits)
  finally have "main cfg e = main cfg ?e" .
  with lb init show ?thesis by blast
qed

theorem blacklist_failure_is_not_fatal_witness:
  "blacklist_provider failing_sheet_env = Inl ''quota exceeded''
   \<and> initialise scenario_config failing_sheet_env
       = Some (fresh_sender\<lparr>ticks := 2\<rparr>,
               [(INFO, LoadedHistory 0), (WARNING, BlacklistLoadFailed ''quota exceeded'')])
   \<and> map row_status (rows_written (main scenario_config failing_sheet_env))
       = [''Success'', ''Success'', ''Failed'']"
proof -
  have fails: "blacklist_provider failing_sheet_env = Inl ''quota exceeded''"
    by (simp add: failing_sheet_env_def)
  have repaired: "failing_sheet_env\<lparr>blacklist_provider := Inr []\<rparr>
      = scenario_env noon five_candidates third_fails"
    by (simp add: failing_sheet_env_def scenario_env_def)
  have init: "initialise scenario_config failing_sheet_env
       = Some (fresh_sender\<lparr>ticks := 2\<rparr>,
               [(INFO, LoadedHistory 0), (WARNING, BlacklistLoadFailed ''quota exceeded'')])"
    by (simp add: initialise_def failing_sheet_env_def scenario_env_fields now_def
          load_sent_history_def load_blacklist_def scenario_config_def fresh_sender_def
          noon_window Let_def)
  from blacklist_failure_is_not_fatal [OF fails, of scenario_config]
  have "main scenario_config failing_sheet_env
      = main scenario_config (scenario_env noon five_candidates third_fails)"
    by (simp only: repaired)
  then have "map row_status (rows_written (main scenario_config failing_sheet_env))
       = [''Success'', ''Success'', ''Failed'']"
    by (simp add: main_five rows_written_def logged_row_def fresh_sender_def)
  with fails init show ?thesis
    by simp
qed

end
